theory Spec2Isabelle
  imports Main "HOL-Library.Sublist"
begin

section \<open>Strings, bytes and runes\<close>

text \<open>
  A Go \<open>string\<close> is a sequence of bytes: it is modelled as \<^typ>\<open>string\<close>, a list of
  8-bit characters. A Go \<open>rune\<close> is an \<open>int32\<close> code point: it is modelled as
  \<^typ>\<open>int\<close>. Go's \<open>int\<close> is 64 bits wide; the line numbers and indices below stay far
  from its bounds, so it is modelled as \<^typ>\<open>int\<close> too.
\<close>

type_synonym rune = int

text \<open>The rune literal \<open>'c'\<close> of an ASCII character.\<close>

definition rune :: "char \<Rightarrow> rune" where
  "rune c = of_char c"

definition newline :: char where
  "newline = CHR 0x0A"

text \<open>
  \<open>string(r)\<close> and \<open>strings.Builder.WriteRune(r)\<close>: the UTF-8 encoding of the rune;
  a rune that is no Unicode scalar value (negative, a surrogate, beyond U+10FFFF) is
  written as U+FFFD.
\<close>

definition encodeRune :: "rune \<Rightarrow> string" where
  "encodeRune r =
     (if 0 \<le> r \<and> r \<le> 0x7F then [char_of r]
      else if 0 \<le> r \<and> r \<le> 0x7FF then
        [char_of (0xC0 + r div 64), char_of (0x80 + r mod 64)]
      else if r < 0 \<or> 0x10FFFF < r \<or> (0xD800 \<le> r \<and> r \<le> 0xDFFF) then
        [CHR 0xEF, CHR 0xBF, CHR 0xBD]
      else if r \<le> 0xFFFF then
        [char_of (0xE0 + r div 4096), char_of (0x80 + (r div 64) mod 64),
         char_of (0x80 + r mod 64)]
      else
        [char_of (0xF0 + r div 262144), char_of (0x80 + (r div 4096) mod 64),
         char_of (0x80 + (r div 64) mod 64), char_of (0x80 + r mod 64)])"

text \<open>\<open>strings.Builder\<close>: the bytes written so far.\<close>

type_synonym Builder = string

definition WriteString :: "Builder \<Rightarrow> string \<Rightarrow> Builder" where
  "WriteString sb s = sb @ s"

definition WriteByte :: "Builder \<Rightarrow> char \<Rightarrow> Builder" where
  "WriteByte sb c = sb @ [c]"

definition WriteRune :: "Builder \<Rightarrow> rune \<Rightarrow> Builder" where
  "WriteRune sb r = sb @ encodeRune r"

text \<open>\<open>strings.Join(elems, sep)\<close>.\<close>

fun Join :: "string list \<Rightarrow> string \<Rightarrow> string" where
  "Join [] sep = []"
| "Join [x] sep = x"
| "Join (x # y # ys) sep = x @ sep @ Join (y # ys) sep"

section \<open>The diff model (diff.go)\<close>

record Line =
  Op :: rune
  Content :: string

text \<open>
  \<open>Staged\<close> is read and written by \<open>handleStageHunk\<close>; \<open>StartLine\<close> is the index of
  the hunk's header in the display lines.
\<close>

record Hunk =
  Label :: string
  File :: string
  Header :: string
  Comment :: string
  OldStart :: int
  NewStart :: int
  Lines :: "Line list"
  StartLine :: int
  Staged :: bool

text \<open>
  \<open>filterLines\<close>: the loop appends the content of every line whose op is \<open>op\<close>, then
  the pieces are joined.
\<close>

definition filterLines :: "Hunk \<Rightarrow> rune \<Rightarrow> string" where
  "filterLines h op =
     Join (foldl (\<lambda>lines l. if Op l = op then lines @ [Content l] else lines) [] (Lines h))
       [newline]"

definition AddedLines :: "Hunk \<Rightarrow> string" where
  "AddedLines h = filterLines h (rune CHR ''+'')"

definition RemovedLines :: "Hunk \<Rightarrow> string" where
  "RemovedLines h = filterLines h (rune CHR ''-'')"

text \<open>\<open>AsPatch\<close>: header, newline, then one write of op, content and newline per line.\<close>

definition AsPatch :: "Hunk \<Rightarrow> string" where
  "AsPatch h =
     foldl (\<lambda>sb l. WriteByte (WriteString (WriteRune sb (Op l)) (Content l)) newline)
       (WriteByte (WriteString [] (Header h)) newline) (Lines h)"

section \<open>The label registry (keys.go, diff.go)\<close>

record KeyBinding =
  Key :: rune
  Name :: string

definition kb :: "char \<Rightarrow> string \<Rightarrow> KeyBinding" where
  "kb c n = \<lparr>Key = rune c, Name = n\<rparr>"

definition keyBindings :: "KeyBinding list" where
  "keyBindings =
     [kb CHR ''j'' ''scroll down'', kb CHR ''k'' ''scroll up'',
      kb CHR ''d'' ''half page down'', kb CHR ''u'' ''half page up'',
      kb CHR ''g'' ''go to top'', kb CHR ''G'' ''go to bottom'',
      kb CHR ''s'' ''side-by-side'', kb CHR ''n'' ''line numbers / next match'',
      kb CHR ''w'' ''wrap'', kb CHR ''e'' ''explorer'',
      kb CHR ''h'' ''syntax highlight'', kb CHR ''b'' ''diff background'',
      kb CHR ''f'' ''toggle full file view'',
      kb CHR ''y'' ''yank added'', kb CHR ''Y'' ''yank removed'',
      kb CHR ''p'' ''yank patch'', kb CHR ''c'' ''copy result'',
      kb CHR ''A'' ''stage/unstage hunk'',
      kb CHR ''F'' ''follow mode'',
      kb CHR ''/'' ''search'', kb CHR ''N'' ''prev search match'',
      kb CHR '']'' ''next hunk/file'', kb CHR ''['' ''prev hunk/file'',
      kb CHR ''a'' ''show all (tree)'',
      kb CHR ''?'' ''help'',
      kb CHR ''o'' ''open in editor'',
      kb CHR ''W'' ''toggle watch mode'',
      kb CHR ''q'' ''quit'', kb CHR ''+'' ''more context'',
      kb CHR ''='' ''more context'', kb CHR ''-'' ''less context'']"

text \<open>
  \<open>init\<close>: the map \<open>reservedKeys\<close> gets every bound key; reading a missing key of a
  Go \<open>map[rune]bool\<close> gives \<open>false\<close>.
\<close>

definition reservedKeys :: "rune \<rightharpoonup> bool" where
  "reservedKeys = foldl (\<lambda>m b. m(Key b \<mapsto> True)) Map.empty keyBindings"

definition reserved :: "rune \<Rightarrow> bool" where
  "reserved r = (case reservedKeys r of None \<Rightarrow> False | Some b \<Rightarrow> b)"

definition appendUnreserved :: "rune list \<Rightarrow> rune list \<Rightarrow> rune list" where
  "appendUnreserved acc rs = foldl (\<lambda>a r. if \<not> reserved r then a @ [r] else a) acc rs"

definition availableLabels :: "rune list" where
  "availableLabels =
     appendUnreserved (appendUnreserved [] [rune CHR ''a'' .. rune CHR ''z''])
       [rune CHR ''A'' .. rune CHR ''Z'']"

text \<open>
  \<open>indexToLabel\<close>. Indexing \<open>availableLabels\<close> with a negative index panics, and so
  does a division by an empty alphabet: \<open>None\<close>. \<open>over\<close> and \<open>n\<close> are not negative
  where they are divided, so Go's truncating \<open>/\<close> and \<open>%\<close> are \<open>div\<close> and \<open>mod\<close>.
\<close>

definition indexToLabel :: "int \<Rightarrow> string option" where
  "indexToLabel idx =
     (let n = int (length availableLabels) in
      if idx < n then
        (if idx < 0 then None else Some (encodeRune (availableLabels ! nat idx)))
      else if n = 0 then None
      else
        (let over = idx - n;
             first = over div n;
             second = over mod n;
             first = (if first \<ge> n then n - 1 else first)
         in Some (encodeRune (availableLabels ! nat first)
                  @ encodeRune (availableLabels ! nat second))))"

section \<open>Parsing into hunks (diff.go)\<close>

text \<open>
  The unified-diff parser is the library \<open>gitdiff\<close>; its result types are declared here
  as \<open>parseDiff\<close> uses them. \<open>OldPosition\<close> and the other counts are \<open>int64\<close>.
\<close>

datatype LineOp = OpContext | OpDelete | OpAdd

record gitdiff_Line =
  gOp :: LineOp
  gLine :: string

record TextFragment =
  fComment :: string
  OldPosition :: int
  OldLines :: int
  NewPosition :: int
  NewLines :: int
  fLines :: "gitdiff_Line list"

record gitdiff_File =
  NewName :: string
  OldName :: string
  TextFragments :: "TextFragment list"

datatype error = ParseError string | Panic

text \<open>
  The two library functions \<open>parseDiff\<close> calls and this development does not define:
  \<open>gitdiff.Parse\<close> and \<open>strings.TrimSpace\<close>.
\<close>

record lib =
  Parse :: "string \<Rightarrow> string + gitdiff_File list"
  TrimSpace :: "string \<Rightarrow> string"

text \<open>\<open>%d\<close> of \<open>fmt.Sprintf\<close>: decimal digits, a minus sign for a negative number.\<close>

definition digitChar :: "nat \<Rightarrow> char" where
  "digitChar d = char_of (48 + d)"

function showNat :: "nat \<Rightarrow> string" where
  "showNat n = (if n < 10 then [digitChar n] else showNat (n div 10) @ [digitChar (n mod 10)])"
  by pat_completeness auto
termination
  by (relation "measure id") auto

definition showInt :: "int \<Rightarrow> string" where
  "showInt i = (if i < 0 then CHR ''-'' # showNat (nat (- i)) else showNat (nat i))"

definition formatHeader :: "TextFragment \<Rightarrow> string" where
  "formatHeader frag =
     (let comment = (if fComment frag \<noteq> [] then '' '' @ fComment frag else [])
      in ''@@ -'' @ showInt (OldPosition frag) @ '','' @ showInt (OldLines frag)
         @ '' +'' @ showInt (NewPosition frag) @ '','' @ showInt (NewLines frag)
         @ '' @@'' @ comment)"

text \<open>\<open>strings.TrimRight(s, cutset)\<close> for a cutset of ASCII bytes.\<close>

definition TrimRight :: "string \<Rightarrow> string \<Rightarrow> string" where
  "TrimRight s cutset = rev (dropWhile (\<lambda>c. c \<in> set cutset) (rev s))"

definition parseLine :: "gitdiff_Line \<Rightarrow> Line" where
  "parseLine l =
     \<lparr>Op = (case gOp l of OpAdd \<Rightarrow> rune CHR ''+'' | OpDelete \<Rightarrow> rune CHR ''-''
                | OpContext \<Rightarrow> rune CHR '' ''),
      Content = TrimRight (gLine l) [newline]\<rparr>"

definition parseLines :: "TextFragment \<Rightarrow> Line list" where
  "parseLines frag = foldl (\<lambda>lines l. lines @ [parseLine l]) [] (fLines frag)"

text \<open>
  The inner loop of \<open>parseDiff\<close> over the fragments of one file, and the outer loop over
  the files; \<open>hunks\<close> is the slice built so far. A field the struct literal leaves out
  has its zero value.
\<close>

fun addFragments :: "lib \<Rightarrow> string \<Rightarrow> Hunk list \<Rightarrow> TextFragment list \<Rightarrow> error + Hunk list" where
  "addFragments L filename hunks [] = Inr hunks"
| "addFragments L filename hunks (frag # frags) =
     (case indexToLabel (int (length hunks)) of
        None \<Rightarrow> Inl Panic
      | Some label \<Rightarrow>
          addFragments L filename
            (hunks @ [\<lparr>Label = label, File = filename, Header = formatHeader frag,
                       Comment = TrimSpace L (fComment frag),
                       OldStart = OldPosition frag, NewStart = NewPosition frag,
                       Lines = parseLines frag, StartLine = 0, Staged = False\<rparr>])
            frags)"

fun addFiles :: "lib \<Rightarrow> Hunk list \<Rightarrow> gitdiff_File list \<Rightarrow> error + Hunk list" where
  "addFiles L hunks [] = Inr hunks"
| "addFiles L hunks (file # files) =
     (let filename = (if NewName file = [] \<or> NewName file = ''/dev/null''
                      then OldName file else NewName file)
      in case addFragments L filename hunks (TextFragments file) of
           Inl e \<Rightarrow> Inl e
         | Inr hunks' \<Rightarrow> addFiles L hunks' files)"

definition parseDiff :: "lib \<Rightarrow> string \<Rightarrow> error + Hunk list" where
  "parseDiff L data =
     (case Parse L data of
        Inl err \<Rightarrow> Inl (ParseError err)
      | Inr files \<Rightarrow> addFiles L [] files)"

section \<open>Display lines and the viewer state (State, DisplayLine, HalfLine)\<close>

datatype LineStyle =
  StyleNormal | StyleFileHeader | StyleHunkHeader | StyleAdded | StyleRemoved | StyleContext

record HalfLine =
  hText :: string
  hStyle :: LineStyle
  LineNo :: int

record DisplayLine =
  Text :: string
  Style :: LineStyle
  dLabel :: string
  HunkIdx :: int
  OldLineNo :: int
  NewLineNo :: int
  Continuation :: bool
  Left :: HalfLine
  Right :: HalfLine

text \<open>
  The fields of \<open>State\<close> that the functions below read or write. \<open>sStaged\<close> is the
  \<open>--staged\<close> flag \<open>State.Staged\<close> and \<open>sLines\<close> the display lines \<open>State.Lines\<close>.
  \<open>PendingKey\<close> is 0 when no command is pending. Times are nanoseconds, as
  \<open>time.Duration\<close> counts them.
\<close>

record State =
  Refs :: "string list"
  sStaged :: bool
  Hunks :: "Hunk list"
  Width :: int
  PendingKey :: rune
  PendingLabel :: string
  PendingTime :: int
  sLines :: "DisplayLine list"
  SideBySide :: bool
  LineNumbers :: bool
  Wrap :: bool
  TreeOpen :: bool
  FilterFile :: string
  DiffX :: int
  DiffWidth :: int
  LabelGutter :: int
  FullFile :: bool
  FullFileName :: string
  FlashMsg :: string
  FlashExpiry :: int

section \<open>Label lookup (State.HunkByLabel, State.hasLabelPrefix)\<close>

text \<open>
  \<open>HunkByLabel\<close> returns a pointer into \<open>s.Hunks\<close>, or \<open>nil\<close>: here the index of the
  hunk, or \<open>None\<close>. The loop runs over the indices from 0 upwards.
\<close>

primrec findLabel :: "Hunk list \<Rightarrow> string \<Rightarrow> nat \<Rightarrow> nat option" where
  "findLabel [] label i = None"
| "findLabel (h # hs) label i =
     (if Label h = label then Some i else findLabel hs label (Suc i))"

definition HunkByLabel :: "State \<Rightarrow> string \<Rightarrow> nat option" where
  "HunkByLabel s label = findLabel (Hunks s) label 0"

primrec anyLabelPrefix :: "Hunk list \<Rightarrow> string \<Rightarrow> bool" where
  "anyLabelPrefix [] pfx = False"
| "anyLabelPrefix (h # hs) pfx =
     (if length (Label h) > length pfx \<and> take (length pfx) (Label h) = pfx
      then True else anyLabelPrefix hs pfx)"

definition hasLabelPrefix :: "State \<Rightarrow> string \<Rightarrow> bool" where
  "hasLabelPrefix s pfx = anyLabelPrefix (Hunks s) pfx"

section \<open>Yank and stage commands (handleYankHunk, handleStageHunk)\<close>

text \<open>
  Modelled from the spec: \<open>Hunk.ResultLines\<close> and \<open>Hunk.AsFullPatch\<close> are called by
  \<open>handleYankHunk\<close> and \<open>handleStageHunk\<close>, but their bodies are not among the
  sources. \<open>result_lines(h)\<close> is the content of the context and \<open>+\<close> lines, joined with
  a newline; \<open>as_full_patch(h)\<close> prepends the three file header lines to \<open>as_patch(h)\<close>.
\<close>

definition ResultLines :: "Hunk \<Rightarrow> string" where
  "ResultLines h =
     Join (foldl (\<lambda>lines l. if Op l = rune CHR '' '' \<or> Op l = rune CHR ''+''
                              then lines @ [Content l] else lines) [] (Lines h))
       [newline]"

definition AsFullPatch :: "Hunk \<Rightarrow> string" where
  "AsFullPatch h =
     ''diff --git a/'' @ File h @ '' b/'' @ File h @ [newline]
     @ ''--- a/'' @ File h @ [newline]
     @ ''+++ b/'' @ File h @ [newline]
     @ AsPatch h"

text \<open>
  What lies outside the program. \<open>now\<close> is the clock \<open>time.Now()\<close>, read once per
  event. \<open>labelTimer\<close> is the global timer: the time at which it posts its event, or
  \<open>None\<close> when there is none. \<open>copyToClipboard\<close> writes to the terminal: \<open>clipboardOK\<close>
  tells whether the write of a text succeeds and \<open>clipboard\<close> records the texts passed
  to it. \<open>exec.Command(...).Run()\<close> starts a child process: \<open>runResult\<close> gives the
  error text of a run (\<open>None\<close> when it succeeds) and \<open>runs\<close> records program, arguments
  and standard input of every run.
\<close>

record Sys =
  now :: int
  labelTimer :: "int option"
  clipboardOK :: "string \<Rightarrow> bool"
  clipboard :: "string list"
  runResult :: "string \<Rightarrow> string list \<Rightarrow> string \<Rightarrow> string option"
  runs :: "(string \<times> string list \<times> string) list"

definition Millisecond :: int where
  "Millisecond = 1000000"

definition Second :: int where
  "Second = 1000 * Millisecond"

definition labelTimeout :: int where
  "labelTimeout = 500 * Millisecond"

definition copyToClipboard :: "Sys \<Rightarrow> string \<Rightarrow> bool \<times> Sys" where
  "copyToClipboard w text = (clipboardOK w text, w\<lparr>clipboard := clipboard w @ [text]\<rparr>)"

definition cancelLabelTimer :: "Sys \<Rightarrow> Sys" where
  "cancelLabelTimer w = w\<lparr>labelTimer := None\<rparr>"

definition startLabelTimer :: "Sys \<Rightarrow> Sys" where
  "startLabelTimer w = (cancelLabelTimer w)\<lparr>labelTimer := Some (now w + labelTimeout)\<rparr>"

text \<open>
  \<open>hunk\<close> is a pointer into \<open>s.Hunks\<close>: here the index \<open>i\<close> that \<open>HunkByLabel\<close>
  returned. A command other than the four of the \<open>switch\<close> leaves \<open>text\<close> empty.
\<close>

definition handleYankHunk :: "Sys \<Rightarrow> State \<Rightarrow> rune \<Rightarrow> nat \<Rightarrow> Sys \<times> State" where
  "handleYankHunk w s cmd i =
     (let hunk = Hunks s ! i;
          text = (if cmd = rune CHR ''y'' then AddedLines hunk
                  else if cmd = rune CHR ''Y'' then RemovedLines hunk
                  else if cmd = rune CHR ''p'' then AsPatch hunk
                  else if cmd = rune CHR ''c'' then ResultLines hunk
                  else [])
      in if text \<noteq> [] then
           (case copyToClipboard w text of
              (True, w') \<Rightarrow>
                (w', s\<lparr>FlashMsg :=
                         (if cmd = rune CHR ''y'' then ''Yanked added lines from hunk '' @ Label hunk
                          else if cmd = rune CHR ''Y'' then
                            ''Yanked removed lines from hunk '' @ Label hunk
                          else if cmd = rune CHR ''p'' then ''Yanked patch from hunk '' @ Label hunk
                          else if cmd = rune CHR ''c'' then ''Copied result from hunk '' @ Label hunk
                          else FlashMsg s),
                       FlashExpiry := now w + 2 * Second\<rparr>)
            | (False, w') \<Rightarrow>
                (w', s\<lparr>FlashMsg := ''Yank failed for hunk '' @ Label hunk
                                     @ '': could not write to terminal'',
                       FlashExpiry := now w + 2 * Second\<rparr>))
         else (w, s))"

definition handleStageHunk :: "Sys \<Rightarrow> State \<Rightarrow> nat \<Rightarrow> Sys \<times> State" where
  "handleStageHunk w s i =
     (let hunk = Hunks s ! i;
          patch = AsFullPatch hunk;
          args = [''apply'', ''--cached''] @ (if Staged hunk then [''-R''] else []);
          w' = w\<lparr>runs := runs w @ [(''git'', args, patch)]\<rparr>
      in case runResult w ''git'' args patch of
           Some err \<Rightarrow>
             (let action = (if Staged hunk then ''Unstage'' else ''Stage'')
              in (w', s\<lparr>FlashMsg := action @ '' failed for hunk '' @ Label hunk @ '': '' @ err,
                        FlashExpiry := now w + 2 * Second\<rparr>))
         | None \<Rightarrow>
             (let hunk' = hunk\<lparr>Staged := \<not> Staged hunk\<rparr>
              in (w', s\<lparr>Hunks := (Hunks s)[i := hunk'],
                        FlashMsg := (if Staged hunk' then ''Staged hunk '' @ Label hunk'
                                     else ''Unstaged hunk '' @ Label hunk'),
                        FlashExpiry := now w + 2 * Second\<rparr>)))"

section \<open>Pending multi-key commands (handlePending, ResolvePendingLabel)\<close>

datatype Key = KeyEscape | KeyRune | KeyOther

record EventKey =
  eKey :: Key
  eRune :: rune

text \<open>
  The scroll commands of the bracket keys are defined in search.go; they move the scroll
  position and are passed in here.
\<close>

record Nav =
  JumpToNextHunk :: "State \<Rightarrow> State"
  JumpToPrevHunk :: "State \<Rightarrow> State"
  JumpToNextFile :: "State \<Rightarrow> State"
  JumpToPrevFile :: "State \<Rightarrow> State"
  NextFullFile :: "State \<Rightarrow> State"
  PrevFullFile :: "State \<Rightarrow> State"

text \<open>
  The two label branches of \<open>handlePending\<close> have the same text but for the command run
  on the hunk: \<open>run\<close> is \<open>handleYankHunk\<close> with the pending key, or \<open>handleStageHunk\<close>.
\<close>

definition pendingLabelKey ::
  "(Sys \<Rightarrow> State \<Rightarrow> nat \<Rightarrow> Sys \<times> State) \<Rightarrow> Sys \<Rightarrow> State \<Rightarrow> rune \<Rightarrow> bool \<times> Sys \<times> State" where
  "pendingLabelKey run w s r =
     (let candidate = PendingLabel s @ encodeRune r in
      case (HunkByLabel s candidate, hasLabelPrefix s candidate) of
        (Some h, False) \<Rightarrow>
          (False, run (cancelLabelTimer w) (s\<lparr>PendingKey := 0, PendingLabel := []\<rparr>) h)
      | _ \<Rightarrow>
          if hasLabelPrefix s candidate \<or> HunkByLabel s candidate \<noteq> None then
            (False, startLabelTimer w, s\<lparr>PendingLabel := candidate, PendingTime := now w\<rparr>)
          else
            (case (if PendingLabel s \<noteq> [] then HunkByLabel s (PendingLabel s) else None) of
               Some h \<Rightarrow>
                 (False, run (cancelLabelTimer w) (s\<lparr>PendingKey := 0, PendingLabel := []\<rparr>) h)
             | None \<Rightarrow>
                 (False, cancelLabelTimer w, s\<lparr>PendingKey := 0, PendingLabel := []\<rparr>)))"

definition handlePending :: "Nav \<Rightarrow> Sys \<Rightarrow> State \<Rightarrow> EventKey \<Rightarrow> bool \<times> Sys \<times> State" where
  "handlePending N w s ev =
     (let pending = PendingKey s in
      if eKey ev = KeyEscape then
        (False, cancelLabelTimer w, s\<lparr>PendingKey := 0, PendingLabel := []\<rparr>)
      else if eKey ev \<noteq> KeyRune then
        (False, cancelLabelTimer w, s\<lparr>PendingKey := 0, PendingLabel := []\<rparr>)
      else
        (let r = eRune ev in
         if pending = rune CHR '']'' then
           (let s1 = s\<lparr>PendingKey := 0\<rparr> in
            if r = rune CHR ''c'' then (False, w, JumpToNextHunk N s1)
            else if r = rune CHR ''f'' then
              (if FullFile s1 then (False, w, NextFullFile N s1)
               else (False, w, JumpToNextFile N s1))
            else (False, w, s1))
         else if pending = rune CHR ''['' then
           (let s1 = s\<lparr>PendingKey := 0\<rparr> in
            if r = rune CHR ''c'' then (False, w, JumpToPrevHunk N s1)
            else if r = rune CHR ''f'' then
              (if FullFile s1 then (False, w, PrevFullFile N s1)
               else (False, w, JumpToPrevFile N s1))
            else (False, w, s1))
         else if pending = rune CHR ''y'' \<or> pending = rune CHR ''Y''
                 \<or> pending = rune CHR ''p'' \<or> pending = rune CHR ''c'' then
           pendingLabelKey (\<lambda>w s h. handleYankHunk w s pending h) w s r
         else if pending = rune CHR ''A'' then
           pendingLabelKey handleStageHunk w s r
         else (False, w, s)))"

definition ResolvePendingLabel :: "Sys \<Rightarrow> State \<Rightarrow> Sys \<times> State" where
  "ResolvePendingLabel w s =
     (if PendingKey s = 0 \<or> PendingLabel s = [] then (w, s)
      else
        (let cmd = PendingKey s;
             (w1, s1) = (case HunkByLabel s (PendingLabel s) of
                           Some h \<Rightarrow> (if cmd = rune CHR ''A'' then handleStageHunk w s h
                                      else handleYankHunk w s cmd h)
                         | None \<Rightarrow> (w, s))
         in (w1, s1\<lparr>PendingKey := 0, PendingLabel := []\<rparr>)))"

section \<open>Building the display lines (buildInlineLines, buildSideBySideLines)\<close>

text \<open>
  A struct literal leaves the fields it does not name at their zero value: \<open>zeroLine\<close>
  and \<open>zeroHalf\<close> are the all-zero \<open>DisplayLine\<close> and \<open>HalfLine\<close>.
\<close>

definition zeroHalf :: HalfLine where
  "zeroHalf = \<lparr>hText = [], hStyle = StyleNormal, LineNo = 0\<rparr>"

definition zeroLine :: DisplayLine where
  "zeroLine =
     \<lparr>Text = [], Style = StyleNormal, dLabel = [], HunkIdx = 0, OldLineNo = 0, NewLineNo = 0,
      Continuation = False, Left = zeroHalf, Right = zeroHalf\<rparr>"

text \<open>
  A loop that never ends has no result: it is the value \<open>Diverges\<close>, next to the
  panic of an index out of range.
\<close>

datatype fault = IndexPanic | Diverges

definition bindF :: "fault + 'a \<Rightarrow> ('a \<Rightarrow> fault + 'b) \<Rightarrow> fault + 'b" where
  "bindF m f = (case m of Inl e \<Rightarrow> Inl e | Inr x \<Rightarrow> f x)"

text \<open>The rows of one hunk in the inline build: the loop over \<open>h.Lines\<close>.\<close>

fun inlineRows :: "int \<Rightarrow> int \<Rightarrow> int \<Rightarrow> Line list \<Rightarrow> DisplayLine list" where
  "inlineRows i oldNo newNo [] = []"
| "inlineRows i oldNo newNo (dl # rest) =
     (if Op dl = rune CHR ''+'' then
        zeroLine\<lparr>Text := encodeRune (Op dl) @ Content dl, Style := StyleAdded, HunkIdx := i,
                 OldLineNo := 0, NewLineNo := newNo\<rparr>
          # inlineRows i oldNo (newNo + 1) rest
      else if Op dl = rune CHR ''-'' then
        zeroLine\<lparr>Text := encodeRune (Op dl) @ Content dl, Style := StyleRemoved, HunkIdx := i,
                 OldLineNo := oldNo, NewLineNo := 0\<rparr>
          # inlineRows i (oldNo + 1) newNo rest
      else
        zeroLine\<lparr>Text := encodeRune (Op dl) @ Content dl, Style := StyleContext, HunkIdx := i,
                 OldLineNo := oldNo, NewLineNo := newNo\<rparr>
          # inlineRows i (oldNo + 1) (newNo + 1) rest)"

text \<open>
  The rows of one hunk in the side-by-side build. \<open>takeRemoves\<close> and \<open>takeAdds\<close> are
  the two collecting loops, \<open>dropRemoves\<close> and \<open>dropAdds\<close> what they leave of the lines.
  \<open>removeNos[k]\<close> is \<open>oldNo + k\<close> and \<open>addNos[k]\<close> is \<open>newNo + k\<close>.
\<close>

definition takeRemoves :: "Line list \<Rightarrow> Line list" where
  "takeRemoves ls = takeWhile (\<lambda>l. Op l = rune CHR ''-'') ls"

definition dropRemoves :: "Line list \<Rightarrow> Line list" where
  "dropRemoves ls = dropWhile (\<lambda>l. Op l = rune CHR ''-'') ls"

definition takeAdds :: "Line list \<Rightarrow> Line list" where
  "takeAdds ls = takeWhile (\<lambda>l. Op l = rune CHR ''+'') ls"

definition dropAdds :: "Line list \<Rightarrow> Line list" where
  "dropAdds ls = dropWhile (\<lambda>l. Op l = rune CHR ''+'') ls"

definition contextRow :: "int \<Rightarrow> Line \<Rightarrow> int \<Rightarrow> int \<Rightarrow> DisplayLine" where
  "contextRow i dl oldNo newNo =
     zeroLine\<lparr>Style := StyleContext, HunkIdx := i,
              Left := \<lparr>hText = '' '' @ Content dl, hStyle = StyleContext, LineNo = oldNo\<rparr>,
              Right := \<lparr>hText = '' '' @ Content dl, hStyle = StyleContext, LineNo = newNo\<rparr>\<rparr>"

definition pairRow :: "int \<Rightarrow> Line list \<Rightarrow> int \<Rightarrow> Line list \<Rightarrow> int \<Rightarrow> nat \<Rightarrow> DisplayLine" where
  "pairRow i removes oldNo adds newNo k =
     (let left = (if k < length removes
                  then \<lparr>hText = ''-'' @ Content (removes ! k), hStyle = StyleRemoved,
                        LineNo = oldNo + int k\<rparr>
                  else zeroHalf);
          right = (if k < length adds
                   then \<lparr>hText = ''+'' @ Content (adds ! k), hStyle = StyleAdded,
                         LineNo = newNo + int k\<rparr>
                   else zeroHalf);
          lineStyle = (if hText left \<noteq> [] then StyleRemoved
                       else if hText right \<noteq> [] then StyleAdded
                       else StyleContext)
      in zeroLine\<lparr>Style := lineStyle, HunkIdx := i, Left := left, Right := right\<rparr>)"

definition pairRows :: "int \<Rightarrow> Line list \<Rightarrow> int \<Rightarrow> Line list \<Rightarrow> int \<Rightarrow> DisplayLine list" where
  "pairRows i removes oldNo adds newNo =
     map (pairRow i removes oldNo adds newNo) [0 ..< max (length removes) (length adds)]"

text \<open>
  The loop \<open>for j < len(h.Lines)\<close>, on the lines from \<open>j\<close> on. A line that is neither
  context nor \<open>'-'\<close> nor \<open>'+'\<close> is collected by neither loop: \<open>j\<close> stays where it is and
  the loop never ends.
\<close>

function sbsRows :: "int \<Rightarrow> int \<Rightarrow> int \<Rightarrow> Line list \<Rightarrow> fault + DisplayLine list" where
  "sbsRows i oldNo newNo [] = Inr []"
| "sbsRows i oldNo newNo (dl # rest) =
     (if Op dl = rune CHR '' '' then
        bindF (sbsRows i (oldNo + 1) (newNo + 1) rest)
          (\<lambda>rows. Inr (contextRow i dl oldNo newNo # rows))
      else if takeRemoves (dl # rest) = [] \<and> takeAdds (dropRemoves (dl # rest)) = [] then
        Inl Diverges
      else
        bindF (sbsRows i (oldNo + int (length (takeRemoves (dl # rest))))
                 (newNo + int (length (takeAdds (dropRemoves (dl # rest)))))
                 (dropAdds (dropRemoves (dl # rest))))
          (\<lambda>rows. Inr (pairRows i (takeRemoves (dl # rest)) oldNo
                           (takeAdds (dropRemoves (dl # rest))) newNo @ rows)))"
  by pat_completeness auto
termination
proof (relation "measure (\<lambda>(i, oldNo, newNo, ls). length ls)")
  show "wf (measure (\<lambda>(i, oldNo, newNo, ls). length ls))" by simp
next
  fix i oldNo newNo :: int and dl :: Line and rest :: "Line list"
  assume "Op dl = rune CHR '' ''"
  then show "((i, oldNo + 1, newNo + 1, rest), (i, oldNo, newNo, dl # rest))
               \<in> measure (\<lambda>(i, oldNo, newNo, ls). length ls)"
    by simp
next
  fix i oldNo newNo :: int and dl :: Line and rest :: "Line list"
  let ?ls = "dl # rest"
  assume "\<not> (takeRemoves ?ls = [] \<and> takeAdds (dropRemoves ?ls) = [])"
  moreover have "length ?ls = length (takeRemoves ?ls) + length (dropRemoves ?ls)"
    unfolding takeRemoves_def dropRemoves_def
    by (metis length_append takeWhile_dropWhile_id)
  moreover have "length (dropRemoves ?ls)
                   = length (takeAdds (dropRemoves ?ls)) + length (dropAdds (dropRemoves ?ls))"
    unfolding takeAdds_def dropAdds_def
    by (metis length_append takeWhile_dropWhile_id)
  ultimately have "length (dropAdds (dropRemoves ?ls)) < length ?ls"
    by (cases "takeRemoves ?ls = []") auto
  then show "((i, oldNo + int (length (takeRemoves ?ls)),
               newNo + int (length (takeAdds (dropRemoves ?ls))),
               dropAdds (dropRemoves ?ls)),
              (i, oldNo, newNo, ?ls)) \<in> measure (\<lambda>(i, oldNo, newNo, ls). length ls)"
    by simp
qed

text \<open>
  The loop over the hunks is the same text in \<open>buildInlineLines\<close> and in
  \<open>buildSideBySideLines\<close> but for the rows of a hunk, \<open>rowsOf\<close>. It takes the hunks from
  index \<open>i\<close> on, the lines built so far and \<open>currentFile\<close>, and returns the hunks with
  their \<open>StartLine\<close> set and the lines.
\<close>

definition fileHeaderLine :: "string \<Rightarrow> DisplayLine" where
  "fileHeaderLine f = zeroLine\<lparr>Text := f, Style := StyleFileHeader\<rparr>"

definition blankLine :: DisplayLine where
  "blankLine = zeroLine\<lparr>Style := StyleNormal\<rparr>"

definition hunkHeaderLine :: "Hunk \<Rightarrow> int \<Rightarrow> DisplayLine" where
  "hunkHeaderLine h i =
     zeroLine\<lparr>Text := Comment h, Style := StyleHunkHeader, dLabel := Label h, HunkIdx := i\<rparr>"

fun hunkLoop ::
  "(int \<Rightarrow> Hunk \<Rightarrow> fault + DisplayLine list) \<Rightarrow> string \<Rightarrow> nat \<Rightarrow> Hunk list
     \<Rightarrow> DisplayLine list \<Rightarrow> string \<Rightarrow> fault + (Hunk list \<times> DisplayLine list)" where
  "hunkLoop rowsOf filterFile i [] lines currentFile = Inr ([], lines)"
| "hunkLoop rowsOf filterFile i (h # hs) lines currentFile =
     (if filterFile \<noteq> [] \<and> File h \<noteq> filterFile then
        bindF (hunkLoop rowsOf filterFile (Suc i) hs lines currentFile)
          (\<lambda>(hs', lines'). Inr (h\<lparr>StartLine := - 1\<rparr> # hs', lines'))
      else
        (let lines1 = (if File h \<noteq> currentFile
                       then (if currentFile \<noteq> [] then lines @ [blankLine] else lines)
                            @ [fileHeaderLine (File h)]
                       else lines);
             currentFile1 = (if File h \<noteq> currentFile then File h else currentFile);
             lines2 = lines1 @ [blankLine];
             h1 = h\<lparr>StartLine := int (length lines2)\<rparr>;
             lines3 = lines2 @ [hunkHeaderLine h (int i)]
         in bindF (rowsOf (int i) h)
              (\<lambda>rows. bindF (hunkLoop rowsOf filterFile (Suc i) hs (lines3 @ rows) currentFile1)
                 (\<lambda>(hs', lines'). Inr (h1 # hs', lines')))))"

definition buildInlineLines :: "State \<Rightarrow> fault + State" where
  "buildInlineLines s =
     bindF (hunkLoop (\<lambda>i h. Inr (inlineRows i (OldStart h) (NewStart h) (Lines h)))
              (FilterFile s) 0 (Hunks s) [] [])
       (\<lambda>(hs, lines). Inr (s\<lparr>Hunks := hs, sLines := lines\<rparr>))"

definition buildSideBySideLines :: "State \<Rightarrow> fault + State" where
  "buildSideBySideLines s =
     bindF (hunkLoop (\<lambda>i h. sbsRows i (OldStart h) (NewStart h) (Lines h))
              (FilterFile s) 0 (Hunks s) [] [])
       (\<lambda>(hs, lines). Inr (s\<lparr>Hunks := hs, sLines := lines\<rparr>))"

section \<open>Wrapping (wrapLines, wrapSideBySideLines)\<close>

text \<open>
  The conversion \<open>[]rune(s)\<close> decodes UTF-8. \<open>decodeRune\<close> is
  \<open>utf8.DecodeRuneInString\<close>: the rune at the head of the string and the number of
  bytes it takes; a byte that starts no well-formed sequence is decoded as U+FFFD of
  width 1. \<open>string(runes)\<close> encodes every rune again.
\<close>

definition RuneError :: rune where
  "RuneError = 0xFFFD"

definition isCont :: "char \<Rightarrow> bool" where
  "isCont c = (0x80 \<le> (of_char c :: int) \<and> (of_char c :: int) \<le> 0xBF)"

definition secondLo :: "int \<Rightarrow> int" where
  "secondLo b0 = (if b0 = 0xE0 then 0xA0 else if b0 = 0xF0 then 0x90 else 0x80)"

definition secondHi :: "int \<Rightarrow> int" where
  "secondHi b0 = (if b0 = 0xED then 0x9F else if b0 = 0xF4 then 0x8F else 0xBF)"

definition secondOK :: "int \<Rightarrow> char \<Rightarrow> bool" where
  "secondOK b0 c = (secondLo b0 \<le> of_char c \<and> (of_char c :: int) \<le> secondHi b0)"

fun decodeRune :: "string \<Rightarrow> rune \<times> nat" where
  "decodeRune [] = (RuneError, 0)"
| "decodeRune (c0 # cs) =
     (let b0 = (of_char c0 :: int) in
      if b0 < 0x80 then (b0, 1)
      else if 0xC2 \<le> b0 \<and> b0 \<le> 0xDF then
        (case cs of
           c1 # _ \<Rightarrow> if isCont c1 then ((b0 mod 32) * 64 + of_char c1 mod 64, 2)
                     else (RuneError, 1)
         | _ \<Rightarrow> (RuneError, 1))
      else if 0xE0 \<le> b0 \<and> b0 \<le> 0xEF then
        (case cs of
           c1 # c2 # _ \<Rightarrow>
             if secondOK b0 c1 \<and> isCont c2
             then ((b0 mod 16) * 4096 + (of_char c1 mod 64) * 64 + of_char c2 mod 64, 3)
             else (RuneError, 1)
         | _ \<Rightarrow> (RuneError, 1))
      else if 0xF0 \<le> b0 \<and> b0 \<le> 0xF4 then
        (case cs of
           c1 # c2 # c3 # _ \<Rightarrow>
             if secondOK b0 c1 \<and> isCont c2 \<and> isCont c3
             then ((b0 mod 8) * 262144 + (of_char c1 mod 64) * 4096
                   + (of_char c2 mod 64) * 64 + of_char c3 mod 64, 4)
             else (RuneError, 1)
         | _ \<Rightarrow> (RuneError, 1))
      else (RuneError, 1))"

text \<open>
  The width of a rune at the head of a string that is not empty is at least 1, so the
  rest of the string after it is \<open>cs\<close> without \<open>width - 1\<close> bytes.
\<close>

fun toRunes :: "string \<Rightarrow> rune list" where
  "toRunes [] = []"
| "toRunes (c # cs) =
     fst (decodeRune (c # cs)) # toRunes (drop (snd (decodeRune (c # cs)) - 1) cs)"

definition fromRunes :: "rune list \<Rightarrow> string" where
  "fromRunes rs = concat (map encodeRune rs)"

text \<open>Go's \<open>/\<close> on \<open>int\<close> truncates towards zero.\<close>

definition goDiv :: "int \<Rightarrow> int \<Rightarrow> int" where
  "goDiv a b = (if (a < 0) = (b < 0) then \<bar>a\<bar> div \<bar>b\<bar> else - (\<bar>a\<bar> div \<bar>b\<bar>))"

definition treeWidth :: int where
  "treeWidth = 30"

definition lineNoWidth :: int where
  "lineNoWidth = 5"

definition updateLayout :: "State \<Rightarrow> State" where
  "updateLayout s =
     (let s1 = (if TreeOpen s
                then s\<lparr>DiffX := treeWidth + 1, DiffWidth := Width s - treeWidth - 1\<rparr>
                else s\<lparr>DiffX := 0, DiffWidth := Width s\<rparr>)
      in if DiffWidth s1 < 1 then s1\<lparr>DiffWidth := 1\<rparr> else s1)"

definition maxLabelWidth :: "State \<Rightarrow> int" where
  "maxLabelWidth s =
     foldl (\<lambda>maxW h. let w = int (length (toRunes (Label h))) in if w > maxW then w else maxW)
       1 (Hunks s)"

definition computeLabelGutter :: "State \<Rightarrow> State" where
  "computeLabelGutter s = s\<lparr>LabelGutter := maxLabelWidth s + 3\<rparr>"

definition sideBySideColWidth :: "State \<Rightarrow> int" where
  "sideBySideColWidth s =
     (let lnoExtra = (if LineNumbers s then lineNoWidth else 0);
          colWidth = goDiv (DiffWidth s - LabelGutter s - 1) 2;
          tw = colWidth - lnoExtra
      in if tw < 1 then 1 else tw)"

definition textWidth :: "State \<Rightarrow> int" where
  "textWidth s =
     (let w = DiffWidth s - LabelGutter s;
          w = (if LineNumbers s then w - lineNoWidth else w)
      in if w < 1 then 1 else w)"

definition isHeaderStyle :: "LineStyle \<Rightarrow> bool" where
  "isHeaderStyle st = (st = StyleNormal \<or> st = StyleFileHeader \<or> st = StyleHunkHeader)"

text \<open>
  \<open>sliceEnd tw runes\<close> is \<open>end := tw; if end > len(runes) { end = len(runes) }\<close>.
  A slice \<open>runes[:end]\<close> with a negative \<open>end\<close> panics; with \<open>tw = 0\<close> the loops
  below take nothing off \<open>runes\<close> and never end.
\<close>

definition sliceEnd :: "int \<Rightarrow> rune list \<Rightarrow> int" where
  "sliceEnd tw runes = (if tw > int (length runes) then int (length runes) else tw)"

function contLines :: "int \<Rightarrow> DisplayLine \<Rightarrow> rune list \<Rightarrow> fault + DisplayLine list" where
  "contLines tw line runes =
     (if runes = [] then Inr []
      else if tw < 0 then Inl IndexPanic
      else if tw = 0 then Inl Diverges
      else
        bindF (contLines tw line (drop (nat (sliceEnd tw runes)) runes))
          (\<lambda>rest. Inr (zeroLine\<lparr>Text := fromRunes (take (nat (sliceEnd tw runes)) runes),
                                   Style := Style line, HunkIdx := HunkIdx line,
                                   Continuation := True\<rparr> # rest)))"
  by pat_completeness auto
termination
  by (relation "measure (\<lambda>(tw, line, runes). length runes)") (auto simp: sliceEnd_def)

declare contLines.simps [simp del]

definition wrapLine :: "int \<Rightarrow> DisplayLine \<Rightarrow> fault + DisplayLine list" where
  "wrapLine tw line =
     (if isHeaderStyle (Style line) then Inr [line]
      else
        (let runes = toRunes (Text line) in
         if int (length runes) \<le> tw then Inr [line]
         else if tw < 0 then Inl IndexPanic
         else
           bindF (contLines tw line (drop (nat tw) runes))
             (\<lambda>rest. Inr (zeroLine\<lparr>Text := fromRunes (take (nat tw) runes),
                                      Style := Style line, HunkIdx := HunkIdx line,
                                      OldLineNo := OldLineNo line,
                                      NewLineNo := NewLineNo line\<rparr> # rest))))"

fun wrapLoop ::
  "(DisplayLine \<Rightarrow> fault + DisplayLine list) \<Rightarrow> DisplayLine list \<Rightarrow> fault + DisplayLine list" where
  "wrapLoop wrapOne [] = Inr []"
| "wrapLoop wrapOne (line # lines) =
     bindF (wrapOne line) (\<lambda>w. bindF (wrapLoop wrapOne lines) (\<lambda>rest. Inr (w @ rest)))"

text \<open>The loop that sets \<open>StartLine\<close> again after wrapping, over the lines with their index.\<close>

definition fixStartLine :: "State \<Rightarrow> nat \<times> DisplayLine \<Rightarrow> State" where
  "fixStartLine s il =
     (case il of (i, line) \<Rightarrow>
        if Style line = StyleHunkHeader \<and> dLabel line \<noteq> [] then
          (case HunkByLabel s (dLabel line) of
             Some k \<Rightarrow> s\<lparr>Hunks := (Hunks s)[k := (Hunks s ! k)\<lparr>StartLine := int i\<rparr>]\<rparr>
           | None \<Rightarrow> s)
        else s)"

definition fixStartLines :: "State \<Rightarrow> State" where
  "fixStartLines s = foldl fixStartLine s (zip [0 ..< length (sLines s)] (sLines s))"

definition wrapLines :: "State \<Rightarrow> fault + State" where
  "wrapLines s =
     bindF (wrapLoop (wrapLine (textWidth s)) (sLines s))
       (\<lambda>wrapped. Inr (fixStartLines (s\<lparr>sLines := wrapped\<rparr>)))"

function sbsContLines ::
  "int \<Rightarrow> DisplayLine \<Rightarrow> rune list \<Rightarrow> rune list \<Rightarrow> fault + DisplayLine list" where
  "sbsContLines tw line leftRunes rightRunes =
     (if leftRunes = [] \<and> rightRunes = [] then Inr []
      else if tw < 0 then Inl IndexPanic
      else if tw = 0 then Inl Diverges
      else
        bindF (sbsContLines tw line (drop (nat (sliceEnd tw leftRunes)) leftRunes)
                 (drop (nat (sliceEnd tw rightRunes)) rightRunes))
          (\<lambda>rest. Inr (zeroLine\<lparr>Style := Style line, HunkIdx := HunkIdx line,
                                   Continuation := True,
                                   Left := \<lparr>hText = fromRunes (take (nat (sliceEnd tw leftRunes))
                                                                 leftRunes),
                                             hStyle = hStyle (Left line), LineNo = 0\<rparr>,
                                   Right := \<lparr>hText = fromRunes (take (nat (sliceEnd tw rightRunes))
                                                                  rightRunes),
                                              hStyle = hStyle (Right line), LineNo = 0\<rparr>\<rparr>
                         # rest)))"
  by pat_completeness auto
termination
  by (relation "measure (\<lambda>(tw, line, l, r). length l + length r)")
     (auto simp: sliceEnd_def intro: add_less_le_mono add_le_less_mono)

declare sbsContLines.simps [simp del]

definition wrapSbsLine :: "int \<Rightarrow> DisplayLine \<Rightarrow> fault + DisplayLine list" where
  "wrapSbsLine tw line =
     (if isHeaderStyle (Style line) then Inr [line]
      else
        (let leftRunes = toRunes (hText (Left line));
             rightRunes = toRunes (hText (Right line))
         in if int (length leftRunes) \<le> tw \<and> int (length rightRunes) \<le> tw then Inr [line]
            else if tw < 0 then Inl IndexPanic
            else
              bindF (sbsContLines tw line (drop (nat (sliceEnd tw leftRunes)) leftRunes)
                       (drop (nat (sliceEnd tw rightRunes)) rightRunes))
                (\<lambda>rest. Inr (zeroLine\<lparr>Style := Style line, dLabel := dLabel line,
                                         HunkIdx := HunkIdx line,
                                         Left := \<lparr>hText = fromRunes
                                                     (take (nat (sliceEnd tw leftRunes)) leftRunes),
                                                   hStyle = hStyle (Left line),
                                                   LineNo = LineNo (Left line)\<rparr>,
                                         Right := \<lparr>hText = fromRunes
                                                     (take (nat (sliceEnd tw rightRunes)) rightRunes),
                                                    hStyle = hStyle (Right line),
                                                    LineNo = LineNo (Right line)\<rparr>\<rparr>
                               # rest))))"

definition wrapSideBySideLines :: "State \<Rightarrow> fault + State" where
  "wrapSideBySideLines s =
     bindF (wrapLoop (wrapSbsLine (sideBySideColWidth s)) (sLines s))
       (\<lambda>wrapped. Inr (fixStartLines (s\<lparr>sLines := wrapped\<rparr>)))"

section \<open>The full-file builds and \<open>BuildLines\<close>\<close>

text \<open>
  The files and the child processes that the full-file builds read. \<open>gitRoot\<close> is the
  result of \<open>gitRoot()\<close> (\<open>None\<close> for an error), \<open>readFile\<close> that of \<open>os.ReadFile\<close>,
  \<open>gitShow\<close> the output of \<open>git show\<close> with the given argument (\<open>None\<close> when
  \<open>Output()\<close> gives \<open>nil\<close>), and \<open>pathJoin\<close> is \<open>filepath.Join\<close>.
\<close>

record Files =
  gitRoot :: "string option"
  readFile :: "string \<Rightarrow> string option"
  gitShow :: "string \<Rightarrow> string option"
  pathJoin :: "string \<Rightarrow> string \<Rightarrow> string"

text \<open>\<open>strings.Split(s, sep)\<close> for a separator of one byte.\<close>

primrec splitOn :: "char \<Rightarrow> string \<Rightarrow> string \<Rightarrow> string list" where
  "splitOn sep cur [] = [cur]"
| "splitOn sep cur (c # cs) =
     (if c = sep then cur # splitOn sep [] cs else splitOn sep (cur @ [c]) cs)"

definition Split :: "string \<Rightarrow> char \<Rightarrow> string list" where
  "Split s sep = splitOn sep [] s"

definition fileLinesOf :: "string \<Rightarrow> string list" where
  "fileLinesOf content = Split (TrimRight content [newline]) newline"

text \<open>The indices of the hunks of the file, in order (\<open>fileHunks\<close>).\<close>

definition fileHunkIdxs :: "State \<Rightarrow> string \<Rightarrow> nat list" where
  "fileHunkIdxs s filename = filter (\<lambda>i. File (Hunks s ! i) = filename) [0 ..< length (Hunks s)]"

definition firstHunkIdx :: "nat list \<Rightarrow> int" where
  "firstHunkIdx idxs = (case idxs of [] \<Rightarrow> - 1 | i # _ \<Rightarrow> int i)"

text \<open>
  The two loops of \<open>buildFullFileLines\<close> that copy lines of the file as context: up to
  the start of a hunk (\<open>limit = Some h.NewStart\<close>) and, after the last hunk, to the end
  of the file (\<open>limit = None\<close>). \<open>fileLines[newLineNo-1]\<close> panics when \<open>newLineNo\<close> is
  below 1.
\<close>

function ffCopy ::
  "string list \<Rightarrow> int \<Rightarrow> int option \<Rightarrow> DisplayLine list \<Rightarrow> int \<Rightarrow> int
     \<Rightarrow> fault + (DisplayLine list \<times> int \<times> int)" where
  "ffCopy fileLines ctxIdx limit lines newLineNo oldLineNo =
     (if (case limit of None \<Rightarrow> True | Some start \<Rightarrow> newLineNo < start)
         \<and> newLineNo - 1 < int (length fileLines) then
        (if newLineNo - 1 < 0 then Inl IndexPanic
         else ffCopy fileLines ctxIdx limit
                (lines @ [zeroLine\<lparr>Text := '' '' @ fileLines ! nat (newLineNo - 1),
                                    Style := StyleContext, HunkIdx := ctxIdx,
                                    OldLineNo := oldLineNo, NewLineNo := newLineNo\<rparr>])
                (newLineNo + 1) (oldLineNo + 1))
      else Inr (lines, newLineNo, oldLineNo))"
  by pat_completeness auto
termination
  by (relation "measure (\<lambda>(fileLines, ctxIdx, limit, lines, newLineNo, oldLineNo).
                           nat (int (length fileLines) + 1 - newLineNo))") auto

declare ffCopy.simps [simp del]

text \<open>
  The rows of one hunk in the full-file inline build, with the line numbers after the
  hunk. A line whose op is none of the three cases of the \<open>switch\<close> gives no row.
\<close>

fun ffRows :: "int \<Rightarrow> int \<Rightarrow> int \<Rightarrow> Line list \<Rightarrow> DisplayLine list \<times> int \<times> int" where
  "ffRows i oldNo newNo [] = ([], oldNo, newNo)"
| "ffRows i oldNo newNo (dl # rest) =
     (if Op dl = rune CHR '' '' then
        (case ffRows i (oldNo + 1) (newNo + 1) rest of
           (rows, oNo, nNo) \<Rightarrow>
             (zeroLine\<lparr>Text := '' '' @ Content dl, Style := StyleContext, HunkIdx := i,
                       OldLineNo := oldNo, NewLineNo := newNo\<rparr> # rows, oNo, nNo))
      else if Op dl = rune CHR ''+'' then
        (case ffRows i oldNo (newNo + 1) rest of
           (rows, oNo, nNo) \<Rightarrow>
             (zeroLine\<lparr>Text := ''+'' @ Content dl, Style := StyleAdded, HunkIdx := i,
                       NewLineNo := newNo\<rparr> # rows, oNo, nNo))
      else if Op dl = rune CHR ''-'' then
        (case ffRows i (oldNo + 1) newNo rest of
           (rows, oNo, nNo) \<Rightarrow>
             (zeroLine\<lparr>Text := ''-'' @ Content dl, Style := StyleRemoved, HunkIdx := i,
                       OldLineNo := oldNo\<rparr> # rows, oNo, nNo))
      else ffRows i oldNo newNo rest)"

text \<open>
  The loop over \<open>fileHunks\<close>: the hunks (a hunk's \<open>StartLine\<close> is set through its
  pointer), the lines and the two line numbers are carried along.
\<close>

fun ffLoop ::
  "string list \<Rightarrow> int \<Rightarrow> nat list \<Rightarrow> Hunk list \<Rightarrow> DisplayLine list \<Rightarrow> int \<Rightarrow> int
     \<Rightarrow> fault + (Hunk list \<times> DisplayLine list \<times> int \<times> int)" where
  "ffLoop fileLines ctxIdx [] hunks lines newLineNo oldLineNo =
     Inr (hunks, lines, newLineNo, oldLineNo)"
| "ffLoop fileLines ctxIdx (hIdx # rest) hunks lines newLineNo oldLineNo =
     (let h = hunks ! hIdx in
      bindF (ffCopy fileLines ctxIdx (Some (NewStart h)) lines newLineNo oldLineNo)
        (\<lambda>(lines1, newLineNo1, oldLineNo1).
           let lines2 = lines1 @ [blankLine];
               h1 = h\<lparr>StartLine := int (length lines2)\<rparr>;
               lines3 = lines2 @ [hunkHeaderLine h (int hIdx)]
           in case ffRows (int hIdx) (OldStart h) (NewStart h) (Lines h) of
                (rows, hunkOldNo, hunkNewNo) \<Rightarrow>
                  ffLoop fileLines ctxIdx rest (hunks[hIdx := h1])
                    (lines3 @ rows @ [blankLine]) hunkNewNo hunkOldNo))"

text \<open>
  \<open>buildFullFileLines\<close>. When the root or the file cannot be read it returns early and
  leaves the state, with the display lines it had, as it is.
\<close>

definition fullFileContent :: "Files \<Rightarrow> State \<Rightarrow> string option" where
  "fullFileContent F s =
     (case gitRoot F of
        None \<Rightarrow> None
      | Some root \<Rightarrow>
          (case readFile F (pathJoin F root (FullFileName s)) of
             Some content \<Rightarrow> Some content
           | None \<Rightarrow> gitShow F (''HEAD:'' @ FullFileName s)))"

definition buildFullFileLines :: "Files \<Rightarrow> State \<Rightarrow> fault + State" where
  "buildFullFileLines F s =
     (case fullFileContent F s of
        None \<Rightarrow> Inr s
      | Some content \<Rightarrow>
          (let fileLines = fileLinesOf content;
               fileHunks = fileHunkIdxs s (FullFileName s);
               contextHunkIdx = firstHunkIdx fileHunks;
               lines = [fileHeaderLine (FullFileName s)]
           in bindF (ffLoop fileLines contextHunkIdx fileHunks (Hunks s) lines 1 1)
                (\<lambda>(hunks, lines1, newLineNo, oldLineNo).
                   bindF (ffCopy fileLines contextHunkIdx None lines1 newLineNo oldLineNo)
                     (\<lambda>(lines2, nNo, oNo). Inr (s\<lparr>Hunks := hunks, sLines := lines2\<rparr>)))))"

text \<open>\<open>reconstructOldFile\<close>: the three loops, on the old lines built so far.\<close>

function oldCopy :: "string list \<Rightarrow> int option \<Rightarrow> string list \<Rightarrow> int \<Rightarrow> fault + (string list \<times> int)" where
  "oldCopy newLines limit old newPos =
     (if (case limit of None \<Rightarrow> True | Some start \<Rightarrow> newPos < start)
         \<and> newPos - 1 < int (length newLines) then
        (if newPos - 1 < 0 then Inl IndexPanic
         else oldCopy newLines limit (old @ [newLines ! nat (newPos - 1)]) (newPos + 1))
      else Inr (old, newPos))"
  by pat_completeness auto
termination
  by (relation "measure (\<lambda>(newLines, limit, old, newPos).
                           nat (int (length newLines) + 1 - newPos))") auto

declare oldCopy.simps [simp del]

fun oldHunkLines :: "string list \<Rightarrow> int \<Rightarrow> Line list \<Rightarrow> string list \<times> int" where
  "oldHunkLines old newPos [] = (old, newPos)"
| "oldHunkLines old newPos (dl # rest) =
     (if Op dl = rune CHR '' '' then oldHunkLines (old @ [Content dl]) (newPos + 1) rest
      else if Op dl = rune CHR ''-'' then oldHunkLines (old @ [Content dl]) newPos rest
      else if Op dl = rune CHR ''+'' then oldHunkLines old (newPos + 1) rest
      else oldHunkLines old newPos rest)"

fun oldLoop :: "string list \<Rightarrow> Hunk list \<Rightarrow> string list \<Rightarrow> int \<Rightarrow> fault + (string list \<times> int)" where
  "oldLoop newLines [] old newPos = Inr (old, newPos)"
| "oldLoop newLines (h # hs) old newPos =
     bindF (oldCopy newLines (Some (NewStart h)) old newPos)
       (\<lambda>(old1, newPos1).
          case oldHunkLines old1 newPos1 (Lines h) of
            (old2, newPos2) \<Rightarrow> oldLoop newLines hs old2 newPos2)"

definition reconstructOldFile :: "State \<Rightarrow> string \<Rightarrow> string list \<Rightarrow> fault + string list" where
  "reconstructOldFile s filename newLines =
     (let fileHunks = filter (\<lambda>h. File h = filename) (Hunks s) in
      if fileHunks = [] then Inr newLines
      else
        bindF (oldLoop newLines fileHunks [] 1)
          (\<lambda>(old, newPos).
             bindF (oldCopy newLines None old newPos) (\<lambda>(old1, newPos1). Inr old1)))"

definition readNewFile :: "Files \<Rightarrow> State \<Rightarrow> string \<Rightarrow> string list option" where
  "readNewFile F s filename =
     (if sStaged s then
        (case gitShow F ('':'' @ filename) of
           None \<Rightarrow> None | Some out \<Rightarrow> Some (fileLinesOf out))
      else if length (Refs s) \<ge> 2 then
        (case gitShow F (Refs s ! 1 @ '':'' @ filename) of
           None \<Rightarrow> None | Some out \<Rightarrow> Some (fileLinesOf out))
      else
        (case gitRoot F of
           None \<Rightarrow> None
         | Some root \<Rightarrow>
             (case readFile F (pathJoin F root filename) of
                None \<Rightarrow> None | Some content \<Rightarrow> Some (fileLinesOf content))))"

text \<open>
  The loops of \<open>buildFullFileSideBySideLines\<close> that pair old and new lines as context:
  before a hunk while \<open>newLineNo < h.NewStart\<close>, and after the last hunk while either
  side has lines left.
\<close>

definition ctxHalf :: "string list \<Rightarrow> int \<Rightarrow> fault + HalfLine" where
  "ctxHalf ls no =
     (if no - 1 < int (length ls) then
        (if no - 1 < 0 then Inl IndexPanic
         else Inr \<lparr>hText = '' '' @ ls ! nat (no - 1), hStyle = StyleContext, LineNo = no\<rparr>)
      else Inr zeroHalf)"

function ffsBefore ::
  "string list \<Rightarrow> string list \<Rightarrow> int \<Rightarrow> int \<Rightarrow> DisplayLine list \<Rightarrow> int \<Rightarrow> int
     \<Rightarrow> fault + (DisplayLine list \<times> int \<times> int)" where
  "ffsBefore oldLines newLines ctxIdx start lines oldLineNo newLineNo =
     (if newLineNo < start then
        bindF (ctxHalf oldLines oldLineNo)
          (\<lambda>left. bindF (ctxHalf newLines newLineNo)
             (\<lambda>right.
                ffsBefore oldLines newLines ctxIdx start
                  (lines @ [zeroLine\<lparr>Style := StyleContext, HunkIdx := ctxIdx,
                                      Left := left, Right := right\<rparr>])
                  (oldLineNo + 1) (newLineNo + 1)))
      else Inr (lines, oldLineNo, newLineNo))"
  by pat_completeness auto
termination
  by (relation "measure (\<lambda>(oldLines, newLines, ctxIdx, start, lines, oldLineNo, newLineNo).
                           nat (start - newLineNo))") auto

declare ffsBefore.simps [simp del]

function ffsAfter ::
  "string list \<Rightarrow> string list \<Rightarrow> int \<Rightarrow> DisplayLine list \<Rightarrow> int \<Rightarrow> int
     \<Rightarrow> fault + DisplayLine list" where
  "ffsAfter oldLines newLines ctxIdx lines oldLineNo newLineNo =
     (if oldLineNo - 1 < int (length oldLines) \<or> newLineNo - 1 < int (length newLines) then
        bindF (ctxHalf oldLines oldLineNo)
          (\<lambda>left. bindF (ctxHalf newLines newLineNo)
             (\<lambda>right.
                ffsAfter oldLines newLines ctxIdx
                  (lines @ [zeroLine\<lparr>Style := StyleContext, HunkIdx := ctxIdx,
                                      Left := left, Right := right\<rparr>])
                  (if oldLineNo - 1 < int (length oldLines) then oldLineNo + 1 else oldLineNo)
                  (if newLineNo - 1 < int (length newLines) then newLineNo + 1 else newLineNo)))
      else Inr lines)"
  by pat_completeness auto
termination
  by (relation "measure (\<lambda>(oldLines, newLines, ctxIdx, lines, oldLineNo, newLineNo).
                           nat (int (length oldLines) + 1 - oldLineNo)
                           + nat (int (length newLines) + 1 - newLineNo))") auto

declare ffsAfter.simps [simp del]

text \<open>
  The rows of a hunk are those of \<open>buildSideBySideLines\<close>, the same loop. When it ends,
  every line has been taken as context, remove or add, so \<open>hunkOldNo\<close> has grown by the
  number of context and \<open>'-'\<close> lines and \<open>hunkNewNo\<close> by that of context and \<open>'+'\<close>
  lines.
\<close>

definition countOps :: "rune \<Rightarrow> Line list \<Rightarrow> int" where
  "countOps op ls = int (length (filter (\<lambda>l. Op l = rune CHR '' '' \<or> Op l = op) ls))"

fun ffsLoop ::
  "string list \<Rightarrow> string list \<Rightarrow> int \<Rightarrow> nat list \<Rightarrow> Hunk list \<Rightarrow> DisplayLine list \<Rightarrow> int \<Rightarrow> int
     \<Rightarrow> fault + (Hunk list \<times> DisplayLine list \<times> int \<times> int)" where
  "ffsLoop oldLines newLines ctxIdx [] hunks lines oldLineNo newLineNo =
     Inr (hunks, lines, oldLineNo, newLineNo)"
| "ffsLoop oldLines newLines ctxIdx (hIdx # rest) hunks lines oldLineNo newLineNo =
     (let h = hunks ! hIdx in
      bindF (ffsBefore oldLines newLines ctxIdx (NewStart h) lines oldLineNo newLineNo)
        (\<lambda>(lines1, oldLineNo1, newLineNo1).
           let lines2 = lines1 @ [blankLine];
               h1 = h\<lparr>StartLine := int (length lines2)\<rparr>;
               lines3 = lines2 @ [hunkHeaderLine h (int hIdx)]
           in bindF (sbsRows (int hIdx) (OldStart h) (NewStart h) (Lines h))
                (\<lambda>rows.
                   ffsLoop oldLines newLines ctxIdx rest (hunks[hIdx := h1])
                     (lines3 @ rows @ [blankLine])
                     (OldStart h + countOps (rune CHR ''-'') (Lines h))
                     (NewStart h + countOps (rune CHR ''+'') (Lines h)))))"

definition buildFullFileSideBySideLines :: "Files \<Rightarrow> State \<Rightarrow> fault + State" where
  "buildFullFileSideBySideLines F s =
     (case readNewFile F s (FullFileName s) of
        None \<Rightarrow> Inr s
      | Some newLines \<Rightarrow>
          bindF (reconstructOldFile s (FullFileName s) newLines)
            (\<lambda>oldLines.
               let fileHunks = fileHunkIdxs s (FullFileName s);
                   contextHunkIdx = firstHunkIdx fileHunks;
                   lines = [fileHeaderLine (FullFileName s)]
               in bindF (ffsLoop oldLines newLines contextHunkIdx fileHunks (Hunks s) lines 1 1)
                    (\<lambda>(hunks, lines1, oldLineNo, newLineNo).
                       bindF (ffsAfter oldLines newLines contextHunkIdx lines1 oldLineNo newLineNo)
                         (\<lambda>lines2. Inr (s\<lparr>Hunks := hunks, sLines := lines2\<rparr>)))))"

text \<open>
  \<open>BuildLines\<close>. Its last step, \<open>UpdateMatches\<close>, writes the search matches only, which
  are no part of the state here.
\<close>

definition resetStartLines :: "State \<Rightarrow> State" where
  "resetStartLines s = s\<lparr>Hunks := map (\<lambda>h. h\<lparr>StartLine := - 1\<rparr>) (Hunks s)\<rparr>"

definition BuildLines :: "Files \<Rightarrow> State \<Rightarrow> fault + State" where
  "BuildLines F s0 =
     (let s = resetStartLines (computeLabelGutter (updateLayout s0)) in
      if FullFile s \<and> FullFileName s \<noteq> [] then
        (if SideBySide s then
           bindF (buildFullFileSideBySideLines F s)
             (\<lambda>s1. if Wrap s1 then wrapSideBySideLines s1 else Inr s1)
         else
           bindF (buildFullFileLines F s) (\<lambda>s1. if Wrap s1 then wrapLines s1 else Inr s1))
      else if SideBySide s then
        bindF (buildSideBySideLines s) (\<lambda>s1. if Wrap s1 then wrapSideBySideLines s1 else Inr s1)
      else
        bindF (buildInlineLines s) (\<lambda>s1. if Wrap s1 then wrapLines s1 else Inr s1))"

section \<open>Example inputs\<close>

text \<open>A hunk that changes one line, and the zero value of \<open>State\<close>.\<close>

definition hunkA :: Hunk where
  "hunkA =
     \<lparr>Label = ''i'', File = ''a.go'', Header = ''@@ -1,2 +1,2 @@'', Comment = [],
      OldStart = 1, NewStart = 1,
      Lines = [\<lparr>Op = rune CHR '' '', Content = ''x''\<rparr>,
               \<lparr>Op = rune CHR ''-'', Content = ''return y''\<rparr>,
               \<lparr>Op = rune CHR ''+'', Content = ''return y, nil''\<rparr>],
      StartLine = 0, Staged = False\<rparr>"

definition zeroState :: State where
  "zeroState =
     \<lparr>Refs = [], sStaged = False, Hunks = [], Width = 0, PendingKey = 0, PendingLabel = [],
      PendingTime = 0, sLines = [], SideBySide = False, LineNumbers = False, Wrap = False,
      TreeOpen = False, FilterFile = [], DiffX = 0, DiffWidth = 0, LabelGutter = 0,
      FullFile = False, FullFileName = [], FlashMsg = [], FlashExpiry = 0\<rparr>"

text \<open>A fragment with one added line, and a parse of one file with 813 such fragments.\<close>

definition fragA :: TextFragment where
  "fragA = \<lparr>fComment = [], OldPosition = 1, OldLines = 1, NewPosition = 1, NewLines = 1,
            fLines = [\<lparr>gOp = OpAdd, gLine = ''x'' @ [newline]\<rparr>]\<rparr>"

definition libMany :: lib where
  "libMany = \<lparr>Parse = (\<lambda>data. Inr [\<lparr>NewName = ''big.go'', OldName = ''big.go'',
                                       TextFragments = replicate 813 fragA\<rparr>]),
              TrimSpace = (\<lambda>s. s)\<rparr>"

text \<open>A parse of two files, the second one deleted.\<close>

definition libSmall :: lib where
  "libSmall =
     \<lparr>Parse = (\<lambda>data. Inr [\<lparr>NewName = ''a/b.go'', OldName = ''a/b.go'',
                               TextFragments = [fragA, fragA]\<rparr>,
                              \<lparr>NewName = ''/dev/null'', OldName = ''docs/n.txt'',
                               TextFragments = [fragA]\<rparr>]),
      TrimSpace = (\<lambda>s. s)\<rparr>"

text \<open>A world where every write and every run succeeds, one where every run fails, and a
  state with two hunks where \<open>y\<close> is pending.\<close>

definition sys0 :: Sys where
  "sys0 = \<lparr>now = 0, labelTimer = None, clipboardOK = (\<lambda>text. True), clipboard = [],
           runResult = (\<lambda>prog args stdin. None), runs = []\<rparr>"

definition nav0 :: Nav where
  "nav0 = \<lparr>JumpToNextHunk = (\<lambda>s. s), JumpToPrevHunk = (\<lambda>s. s), JumpToNextFile = (\<lambda>s. s),
           JumpToPrevFile = (\<lambda>s. s), NextFullFile = (\<lambda>s. s), PrevFullFile = (\<lambda>s. s)\<rparr>"

definition statePending :: State where
  "statePending = zeroState\<lparr>Hunks := [hunkA\<lparr>Label := ''c''\<rparr>, hunkA], PendingKey := rune CHR ''y''\<rparr>"

definition sysFail :: Sys where
  "sysFail = sys0\<lparr>runResult := (\<lambda>prog args stdin. Some ''exit status 1'')\<rparr>"

text \<open>A side-by-side state with the hunk \<open>hunkA\<close>, what its build gives, and the lines and
  the paired row of \<open>hunkA\<close>.\<close>

definition stateSbs :: State where
  "stateSbs = zeroState\<lparr>Hunks := [hunkA], SideBySide := True\<rparr>"

definition stateSbsBuilt :: State where
  "stateSbsBuilt =
     stateSbs\<lparr>Hunks := [hunkA\<lparr>StartLine := 2\<rparr>],
              sLines := [fileHeaderLine ''a.go'', blankLine, hunkHeaderLine hunkA 0,
                         contextRow 0 \<lparr>Op = rune CHR '' '', Content = ''x''\<rparr> 1 1,
                         zeroLine\<lparr>Style := StyleRemoved, HunkIdx := 0,
                                  Left := \<lparr>hText = ''-return y'', hStyle = StyleRemoved,
                                            LineNo = 2\<rparr>,
                                  Right := \<lparr>hText = ''+return y, nil'', hStyle = StyleAdded,
                                             LineNo = 2\<rparr>\<rparr>]\<rparr>"

definition lineCtx :: Line where "lineCtx = \<lparr>Op = rune CHR '' '', Content = ''x''\<rparr>"

definition lineRem :: Line where "lineRem = \<lparr>Op = rune CHR ''-'', Content = ''return y''\<rparr>"

definition lineAdd :: Line where "lineAdd = \<lparr>Op = rune CHR ''+'', Content = ''return y, nil''\<rparr>"

definition rowRemAdd :: DisplayLine where
  "rowRemAdd =
     zeroLine\<lparr>Style := StyleRemoved, HunkIdx := 0,
              Left := \<lparr>hText = ''-return y'', hStyle = StyleRemoved, LineNo = 2\<rparr>,
              Right := \<lparr>hText = ''+return y, nil'', hStyle = StyleAdded, LineNo = 2\<rparr>\<rparr>"





section \<open>Proofs\<close>

subsection \<open>Patch emission and line filters\<close>

lemma AsPatch_loop:
  "foldl (\<lambda>sb l. WriteByte (WriteString (WriteRune sb (Op l)) (Content l)) newline) acc ls
     = acc @ concat (map (\<lambda>l. encodeRune (Op l) @ Content l @ [newline]) ls)"
  by (induction ls arbitrary: acc) (simp_all add: WriteByte_def WriteString_def WriteRune_def)

lemma encodeRune_ops:
  "encodeRune (rune CHR ''+'') = ''+''"
  "encodeRune (rune CHR ''-'') = ''-''"
  "encodeRune (rune CHR '' '') = '' ''"
  by (simp_all add: encodeRune_def rune_def char_of_def)

text \<open>
  C1. \<open>AsPatch h\<close> is the raw header, a newline, and then for each line of \<open>h\<close> in
  order the encoding of its op rune, its content and a newline; the op runes \<open>'+'\<close>,
  \<open>'-'\<close> and \<open>' '\<close> are written as that one character. The output is a function of
  the header and the lines alone: two hunks that agree on them give the same bytes.
\<close>

theorem AsPatch_format:
  "AsPatch h = Header h @ [newline]
       @ concat (map (\<lambda>l. encodeRune (Op l) @ Content l @ [newline]) (Lines h))
   \<and> encodeRune (rune CHR ''+'') = ''+''
   \<and> encodeRune (rune CHR ''-'') = ''-''
   \<and> encodeRune (rune CHR '' '') = '' ''
   \<and> (Header h' = Header h \<and> Lines h' = Lines h \<longrightarrow> AsPatch h' = AsPatch h)"
proof -
  have eq: "AsPatch x = Header x @ [newline]
       @ concat (map (\<lambda>l. encodeRune (Op l) @ Content l @ [newline]) (Lines x))" for x
    by (simp only: AsPatch_def AsPatch_loop) (simp add: WriteByte_def WriteString_def)
  show ?thesis
    using eq [of h] eq [of h'] by (simp add: encodeRune_ops)
qed

theorem AsPatch_format_witness:
  "AsPatch hunkA = ''@@ -1,2 +1,2 @@'' @ [newline] @ '' x'' @ [newline]
       @ ''-return y'' @ [newline] @ ''+return y, nil'' @ [newline]
   \<and> AsPatch (hunkA\<lparr>Label := ''zz'', Staged := True\<rparr>) = AsPatch hunkA"
  using AsPatch_format [of hunkA "hunkA\<lparr>Label := ''zz'', Staged := True\<rparr>"]
  by (simp add: hunkA_def encodeRune_def rune_def char_of_def)

lemma filter_loop:
  "foldl (\<lambda>lines l. if Op l = op then lines @ [Content l] else lines) acc ls
     = acc @ map Content (filter (\<lambda>l. Op l = op) ls)"
  by (induction ls arbitrary: acc) simp_all

lemma filterLines_eq:
  "filterLines h op = Join (map Content (filter (\<lambda>l. Op l = op) (Lines h))) [newline]"
  by (simp add: filterLines_def filter_loop)

text \<open>
  C7, as the claim states it, fails: the text of a removed line can occur inside the
  joined added lines. In \<open>hunkA\<close> the removed line \<open>return y\<close> is a substring of the
  added lines \<open>return y, nil\<close>.
\<close>

theorem filterLines_contains_counterexample:
  "Op (Lines hunkA ! 1) = rune CHR ''-''
   \<and> Content (Lines hunkA ! 1) = ''return y''
   \<and> AddedLines hunkA = ''return y, nil''
   \<and> sublist (Content (Lines hunkA ! 1)) (AddedLines hunkA)"
proof -
  have "AddedLines hunkA = ''return y'' @ '', nil''"
    by (simp add: AddedLines_def filterLines_def hunkA_def rune_def)
  then show ?thesis
    by (simp add: hunkA_def sublist_append)
qed

text \<open>
  C7, amended. \<open>AddedLines h\<close> is the contents of the \<open>'+'\<close> lines of \<open>h\<close>, in order,
  joined with a newline between them and none after the last, and the \<open>'-'\<close> lines
  contribute nothing to it: deleting them from the hunk leaves \<open>AddedLines\<close> unchanged.
  Symmetrically for \<open>RemovedLines\<close> with the \<open>'-'\<close> lines and the \<open>'+'\<close> lines.
\<close>

theorem filterLines_join:
  "AddedLines h = Join (map Content (filter (\<lambda>l. Op l = rune CHR ''+'') (Lines h))) [newline]
   \<and> AddedLines (h\<lparr>Lines := filter (\<lambda>l. Op l \<noteq> rune CHR ''-'') (Lines h)\<rparr>) = AddedLines h
   \<and> RemovedLines h
       = Join (map Content (filter (\<lambda>l. Op l = rune CHR ''-'') (Lines h))) [newline]
   \<and> RemovedLines (h\<lparr>Lines := filter (\<lambda>l. Op l \<noteq> rune CHR ''+'') (Lines h)\<rparr>)
       = RemovedLines h"
proof -
  have neq: "rune CHR ''+'' \<noteq> rune CHR ''-''" by (simp add: rune_def)
  have a: "(\<lambda>x::Line. Op x \<noteq> rune CHR ''-'' \<and> Op x = rune CHR ''+'')
             = (\<lambda>x. Op x = rune CHR ''+'')"
    using neq by auto
  have b: "(\<lambda>x::Line. Op x \<noteq> rune CHR ''+'' \<and> Op x = rune CHR ''-'')
             = (\<lambda>x. Op x = rune CHR ''-'')"
    using neq by auto
  show ?thesis
    by (simp add: AddedLines_def RemovedLines_def filterLines_eq a b)
qed

subsection \<open>Label lookup\<close>

lemma findLabel_takeWhile:
  "findLabel hs l k =
     (if \<exists>h\<in>set hs. Label h = l then Some (k + length (takeWhile (\<lambda>h. Label h \<noteq> l) hs))
      else None)"
  by (induction hs arbitrary: k) auto




subsection \<open>The label alphabet and \<open>indexToLabel\<close>\<close>

lemma availableLabels_eq:
  "availableLabels = [105, 108, 109, 114, 116, 118, 120, 122, 66, 67, 68, 69, 72, 73, 74, 75,
     76, 77, 79, 80, 81, 82, 83, 84, 85, 86, 88, 90]"
  by code_simp

lemma availableLabels_filter:
  "availableLabels = filter (\<lambda>r. \<not> reserved r)
     ([rune CHR ''a'' .. rune CHR ''z''] @ [rune CHR ''A'' .. rune CHR ''Z''])"
  by code_simp

lemma length_availableLabels: "length availableLabels = 28"
  by (simp add: availableLabels_eq)

lemma distinct_availableLabels: "distinct availableLabels"
  by (simp add: availableLabels_eq)

lemma availableLabels_all:
  "list_all (\<lambda>r. 0 \<le> r \<and> r \<le> 0x7F \<and> \<not> reserved r) availableLabels"
  by code_simp

lemma availableLabels_mem:
  assumes "r \<in> set availableLabels"
  shows "0 \<le> r" "r \<le> 0x7F" "\<not> reserved r"
  using assms availableLabels_all by (auto simp: list_all_iff)

lemma availableLabels_nth:
  assumes "k < 28"
  shows "availableLabels ! k \<in> set availableLabels"
  using assms by (simp add: length_availableLabels)

lemma encodeRune_label:
  assumes "r \<in> set availableLabels"
  shows "encodeRune r = [char_of r]"
  using availableLabels_mem(1,2) [OF assms] by (simp add: encodeRune_def)

lemma char_of_label_inj:
  assumes "a \<in> set availableLabels" "b \<in> set availableLabels" "char_of a = (char_of b :: char)"
  shows "a = b"
proof -
  have "of_char (char_of a :: char) = a" "of_char (char_of b :: char) = b"
    using availableLabels_mem(1,2) [OF assms(1)] availableLabels_mem(1,2) [OF assms(2)] by simp_all
  then show ?thesis using assms(3) by metis
qed

lemma indexToLabel_single:
  assumes "0 \<le> i" "i < 28"
  shows "indexToLabel i = Some [char_of (availableLabels ! nat i)]"
proof -
  have "availableLabels ! nat i \<in> set availableLabels"
    using assms by (intro availableLabels_nth) simp
  then show ?thesis
    using assms by (simp add: indexToLabel_def length_availableLabels encodeRune_label)
qed

lemma indexToLabel_double:
  assumes "28 \<le> i"
  shows "indexToLabel i = Some [char_of (availableLabels ! nat (min ((i - 28) div 28) 27)),
                               char_of (availableLabels ! nat ((i - 28) mod 28))]"
    and "availableLabels ! nat (min ((i - 28) div 28) 27) \<in> set availableLabels"
    and "availableLabels ! nat ((i - 28) mod 28) \<in> set availableLabels"
proof -
  have f: "0 \<le> min ((i - 28) div 28) 27" using assms by simp
  show m1: "availableLabels ! nat (min ((i - 28) div 28) 27) \<in> set availableLabels"
    using f by (intro availableLabels_nth) simp
  show m2: "availableLabels ! nat ((i - 28) mod 28) \<in> set availableLabels"
    by (intro availableLabels_nth) simp
  have "(if 28 \<le> (i - 28) div 28 then 27 else (i - 28) div 28) = min ((i - 28) div 28) 27"
    by simp
  then show "indexToLabel i = Some [char_of (availableLabels ! nat (min ((i - 28) div 28) 27)),
                               char_of (availableLabels ! nat ((i - 28) mod 28))]"
    using assms m1 m2
    by (simp add: indexToLabel_def length_availableLabels Let_def encodeRune_label del: min_less_iff_conj)
qed

text \<open>
  C3. The alphabet \<open>availableLabels\<close> is the lowercase then the uppercase letters without
  the reserved keys. For \<open>0 \<le> i < |A|\<close>, \<open>indexToLabel i\<close> is the single character
  \<open>A[i]\<close>, which is not reserved; for \<open>i \<ge> |A|\<close> it is the two characters
  \<open>A[min((i - |A|) / |A|, |A| - 1)]\<close> and \<open>A[(i - |A|) mod |A|]\<close>, both members of \<open>A\<close>.
\<close>

theorem indexToLabel_formula:
  "availableLabels = filter (\<lambda>r. \<not> reserved r)
       ([rune CHR ''a'' .. rune CHR ''z''] @ [rune CHR ''A'' .. rune CHR ''Z''])
   \<and> (0 \<le> i \<and> i < int (length availableLabels) \<longrightarrow>
        indexToLabel i = Some [char_of (availableLabels ! nat i)]
        \<and> \<not> reserved (availableLabels ! nat i))
   \<and> (int (length availableLabels) \<le> i \<longrightarrow>
        indexToLabel i =
          Some [char_of (availableLabels ! nat (min ((i - int (length availableLabels))
                                                     div int (length availableLabels))
                                                  (int (length availableLabels) - 1))),
                char_of (availableLabels ! nat ((i - int (length availableLabels))
                                                  mod int (length availableLabels)))]
        \<and> availableLabels ! nat (min ((i - int (length availableLabels))
                                        div int (length availableLabels))
                                     (int (length availableLabels) - 1)) \<in> set availableLabels
        \<and> availableLabels ! nat ((i - int (length availableLabels))
                                     mod int (length availableLabels)) \<in> set availableLabels)"
proof (intro conjI impI)
  show "availableLabels = filter (\<lambda>r. \<not> reserved r)
       ([rune CHR ''a'' .. rune CHR ''z''] @ [rune CHR ''A'' .. rune CHR ''Z''])"
    by (rule availableLabels_filter)
next
  assume "0 \<le> i \<and> i < int (length availableLabels)"
  then have b: "0 \<le> i" "i < 28" by (simp_all add: length_availableLabels)
  show "indexToLabel i = Some [char_of (availableLabels ! nat i)]"
    using b by (rule indexToLabel_single)
  have "availableLabels ! nat i \<in> set availableLabels"
    using b by (intro availableLabels_nth) simp
  then show "\<not> reserved (availableLabels ! nat i)"
    by (rule availableLabels_mem(3))
next
  assume "int (length availableLabels) \<le> i"
  then have b: "28 \<le> i" by (simp add: length_availableLabels)
  show "indexToLabel i =
          Some [char_of (availableLabels ! nat (min ((i - int (length availableLabels))
                                                     div int (length availableLabels))
                                                  (int (length availableLabels) - 1))),
                char_of (availableLabels ! nat ((i - int (length availableLabels))
                                                  mod int (length availableLabels)))]"
    using indexToLabel_double(1) [OF b] by (simp add: length_availableLabels)
  show "availableLabels ! nat (min ((i - int (length availableLabels))
                                        div int (length availableLabels))
                                     (int (length availableLabels) - 1)) \<in> set availableLabels"
    using indexToLabel_double(2) [OF b] by (simp add: length_availableLabels)
  show "availableLabels ! nat ((i - int (length availableLabels))
                                     mod int (length availableLabels)) \<in> set availableLabels"
    using indexToLabel_double(3) [OF b] by (simp add: length_availableLabels)
qed

theorem indexToLabel_formula_witness:
  "(0::int) \<le> 3 \<and> 3 < int (length availableLabels) \<and> indexToLabel 3 = Some ''r''
   \<and> \<not> reserved (rune CHR ''r'')
   \<and> int (length availableLabels) \<le> 100 \<and> indexToLabel 100 = Some ''mL''"
proof -
  have n: "int (length availableLabels) = 28"
    by (simp add: length_availableLabels)
  have a: "indexToLabel 3 = Some [char_of (availableLabels ! nat 3)]
           \<and> \<not> reserved (availableLabels ! nat 3)"
    using indexToLabel_formula [of 3, THEN conjunct2, THEN conjunct1] by (simp add: n)
  have b: "indexToLabel 100 = Some [char_of (availableLabels ! nat (min ((100 - 28) div 28) (28 - 1))),
                char_of (availableLabels ! nat ((100 - 28) mod 28))]"
    using indexToLabel_formula [of 100, THEN conjunct2, THEN conjunct2] by (simp add: n)
  have c: "availableLabels ! nat 3 = rune CHR ''r''" "char_of (rune CHR ''r'') = CHR ''r''"
    "char_of (availableLabels ! nat (min ((100 - 28) div 28) (28 - 1))) = CHR ''m''"
    "char_of (availableLabels ! nat ((100 - 28) mod 28)) = CHR ''L''"
    by (simp_all add: availableLabels_eq rune_def char_of_def)
  show ?thesis
    using a b c by (simp add: n)
qed

subsection \<open>Labels of a parse\<close>

lemma indexToLabel_Some:
  assumes "0 \<le> i"
  shows "\<exists>l. indexToLabel i = Some l"
  using assms by (simp add: indexToLabel_def length_availableLabels Let_def)

lemma indexToLabel_inj:
  assumes "0 \<le> i" "i < 812" "0 \<le> j" "j < 812" "indexToLabel i = indexToLabel j"
  shows "i = j"
proof -
  have single: "a = b" if "0 \<le> a" "a < 28" "0 \<le> b" "b < 28"
      "indexToLabel a = indexToLabel b" for a b
  proof -
    have ma: "availableLabels ! nat a \<in> set availableLabels"
      using that by (intro availableLabels_nth) simp
    have mb: "availableLabels ! nat b \<in> set availableLabels"
      using that by (intro availableLabels_nth) simp
    have "char_of (availableLabels ! nat a) = (char_of (availableLabels ! nat b) :: char)"
      using that indexToLabel_single [of a] indexToLabel_single [of b] by simp
    then have "availableLabels ! nat a = availableLabels ! nat b"
      using ma mb by (rule char_of_label_inj [rotated 2])
    then have "nat a = nat b"
      using that distinct_availableLabels
      by (simp add: nth_eq_iff_index_eq length_availableLabels)
    then show ?thesis using that by simp
  qed
  have double: "a = b" if "28 \<le> a" "a < 812" "28 \<le> b" "b < 812"
      "indexToLabel a = indexToLabel b" for a b
  proof -
    have fa: "min ((a - 28) div 28) 27 = (a - 28) div 28" using that by simp
    have fb: "min ((b - 28) div 28) 27 = (b - 28) div 28" using that by simp
    have eq: "char_of (availableLabels ! nat ((a - 28) div 28))
                 = (char_of (availableLabels ! nat ((b - 28) div 28)) :: char)"
             "char_of (availableLabels ! nat ((a - 28) mod 28))
                 = (char_of (availableLabels ! nat ((b - 28) mod 28)) :: char)"
      using that(5) indexToLabel_double(1) [OF that(1)] indexToLabel_double(1) [OF that(3)]
      by (simp_all only: fa fb option.inject list.inject)
    have "availableLabels ! nat ((a - 28) div 28) = availableLabels ! nat ((b - 28) div 28)"
      using indexToLabel_double(2) [OF that(1)] indexToLabel_double(2) [OF that(3)] eq(1)
      by (simp only: fa fb) (rule char_of_label_inj)
    then have d: "nat ((a - 28) div 28) = nat ((b - 28) div 28)"
      using that distinct_availableLabels
      by (simp add: nth_eq_iff_index_eq length_availableLabels)
    have "availableLabels ! nat ((a - 28) mod 28) = availableLabels ! nat ((b - 28) mod 28)"
      using indexToLabel_double(3) [OF that(1)] indexToLabel_double(3) [OF that(3)] eq(2)
      by (rule char_of_label_inj)
    then have m: "nat ((a - 28) mod 28) = nat ((b - 28) mod 28)"
      using distinct_availableLabels
      by (simp add: nth_eq_iff_index_eq length_availableLabels)
    have "(a - 28) div 28 = (b - 28) div 28" using d that by simp
    moreover have "(a - 28) mod 28 = (b - 28) mod 28" using m by simp
    ultimately have "a - 28 = b - 28"
      by (metis mult_div_mod_eq)
    then show ?thesis by simp
  qed
  have mixed: False if "0 \<le> a" "a < 28" "28 \<le> b" "indexToLabel a = indexToLabel b" for a b
    using that indexToLabel_single [of a] indexToLabel_double(1) [of b] by simp
  show ?thesis
  proof (cases "i < 28")
    case True
    show ?thesis
    proof (cases "j < 28")
      case True
      with \<open>i < 28\<close> assms show ?thesis by (intro single) simp_all
    next
      case False
      with \<open>i < 28\<close> assms mixed [of i j] show ?thesis by simp
    qed
  next
    case False
    show ?thesis
    proof (cases "j < 28")
      case True
      with \<open>\<not> i < 28\<close> assms mixed [of j i] show ?thesis by simp
    next
      case False
      with \<open>\<not> i < 28\<close> assms show ?thesis by (intro double) simp_all
    qed
  qed
qed

lemma addFragments_labels:
  "\<exists>new. addFragments L fn hs frs = Inr (hs @ new) \<and> length new = length frs
      \<and> map Label new = map (\<lambda>k. the (indexToLabel (int k))) [length hs ..< length hs + length frs]"
proof (induction frs arbitrary: hs)
  case Nil
  then show ?case by simp
next
  case (Cons frag frs)
  obtain lb where lb: "indexToLabel (int (length hs)) = Some lb"
    using indexToLabel_Some [of "int (length hs)"] by auto
  let ?h = "\<lparr>Label = lb, File = fn, Header = formatHeader frag,
             Comment = TrimSpace L (fComment frag),
             OldStart = OldPosition frag, NewStart = NewPosition frag,
             Lines = parseLines frag, StartLine = 0, Staged = False\<rparr>"
  obtain new where new: "addFragments L fn (hs @ [?h]) frs = Inr ((hs @ [?h]) @ new)"
      "length new = length frs"
      "map Label new = map (\<lambda>k. the (indexToLabel (int k)))
                         [length (hs @ [?h]) ..< length (hs @ [?h]) + length frs]"
    using Cons.IH [of "hs @ [?h]"] by blast
  have "addFragments L fn hs (frag # frs) = Inr (hs @ (?h # new))"
    using lb new(1) by simp
  moreover have "length (?h # new) = length (frag # frs)"
    using new(2) by simp
  moreover have "map Label (?h # new) = map (\<lambda>k. the (indexToLabel (int k)))
                         [length hs ..< length hs + length (frag # frs)]"
  proof -
    have u: "[length hs ..< length hs + length (frag # frs)]
               = length hs # [length (hs @ [?h]) ..< length (hs @ [?h]) + length frs]"
      by (simp add: upt_conv_Cons del: upt_Suc)
    show ?thesis
      by (simp only: u list.map new(3)) (simp add: lb)
  qed
  ultimately show ?case by blast
qed

lemma addFiles_labels:
  "\<exists>new. addFiles L hs files = Inr (hs @ new)
      \<and> length new = sum_list (map (\<lambda>f. length (TextFragments f)) files)
      \<and> map Label new = map (\<lambda>k. the (indexToLabel (int k))) [length hs ..< length hs + length new]"
proof (induction files arbitrary: hs)
  case Nil
  then show ?case by simp
next
  case (Cons f0 files)
  let ?fn = "if NewName f0 = [] \<or> NewName f0 = ''/dev/null'' then OldName f0 else NewName f0"
  obtain n1 where n1: "addFragments L ?fn hs (TextFragments f0) = Inr (hs @ n1)"
      "length n1 = length (TextFragments f0)"
      "map Label n1 = map (\<lambda>k. the (indexToLabel (int k)))
                        [length hs ..< length hs + length (TextFragments f0)]"
    using addFragments_labels [of L ?fn hs "TextFragments f0"] by blast
  obtain n2 where n2: "addFiles L (hs @ n1) files = Inr ((hs @ n1) @ n2)"
      "length n2 = sum_list (map (\<lambda>f. length (TextFragments f)) files)"
      "map Label n2 = map (\<lambda>k. the (indexToLabel (int k)))
                        [length (hs @ n1) ..< length (hs @ n1) + length n2]"
    using Cons.IH [of "hs @ n1"] by blast
  have "addFiles L hs (f0 # files) = Inr (hs @ (n1 @ n2))"
    using n1(1) n2(1) by (simp add: Let_def)
  moreover have "length (n1 @ n2) = sum_list (map (\<lambda>f. length (TextFragments f)) (f0 # files))"
    using n1(2) n2(2) by simp
  moreover have "map Label (n1 @ n2) = map (\<lambda>k. the (indexToLabel (int k)))
                        [length hs ..< length hs + length (n1 @ n2)]"
  proof -
    have "[length hs ..< length hs + length (n1 @ n2)]
            = [length hs ..< length hs + length n1] @ [length hs + length n1 ..< length hs + length n1 + length n2]"
      using upt_add_eq_append [of "length hs" "length hs + length n1" "length n2"] by (simp add: add.assoc)
    then show ?thesis using n1(2,3) n2(3) by simp
  qed
  ultimately show ?case by blast
qed

lemma parseDiff_labels:
  assumes "Parse L data = Inr files"
  shows "\<exists>hs. parseDiff L data = Inr hs
      \<and> length hs = sum_list (map (\<lambda>f. length (TextFragments f)) files)
      \<and> map Label hs = map (\<lambda>k. the (indexToLabel (int k))) [0 ..< length hs]"
  using addFiles_labels [of L "[]" files] assms by (simp add: parseDiff_def)

lemma parseDiff_Inr:
  assumes "parseDiff L data = Inr hs"
  shows "map Label hs = map (\<lambda>k. the (indexToLabel (int k))) [0 ..< length hs]"
proof (cases "Parse L data")
  case (Inl e)
  then show ?thesis using assms by (simp add: parseDiff_def)
next
  case (Inr files)
  from parseDiff_labels [OF Inr] assms show ?thesis by auto
qed

text \<open>
  C4, amended. In a parse that yields at most \<open>|A| + |A|\<^sup>2\<close> hunks (812 of them) the
  labels are pairwise distinct, and the hunk of index \<open>i\<close> bears \<open>indexToLabel i\<close>.
\<close>

theorem parseDiff_labels_distinct:
  assumes "parseDiff L data = Inr hs"
    and "length hs \<le> length availableLabels + length availableLabels * length availableLabels"
  shows "distinct (map Label hs) \<and> (\<forall>i<length hs. indexToLabel (int i) = Some (Label (hs ! i)))"
proof -
  have len: "length hs \<le> 812" using assms(2) by (simp add: length_availableLabels)
  have lab: "map Label hs = map (\<lambda>k. the (indexToLabel (int k))) [0 ..< length hs]"
    using assms(1) by (rule parseDiff_Inr)
  have inj: "inj_on (\<lambda>k. the (indexToLabel (int k))) (set [0 ..< length hs])"
  proof (rule inj_onI)
    fix a b assume ab: "a \<in> set [0 ..< length hs]" "b \<in> set [0 ..< length hs]"
      "the (indexToLabel (int a)) = the (indexToLabel (int b))"
    obtain la lb where l: "indexToLabel (int a) = Some la" "indexToLabel (int b) = Some lb"
      using indexToLabel_Some [of "int a"] indexToLabel_Some [of "int b"] by auto
    then have "indexToLabel (int a) = indexToLabel (int b)" using ab(3) by simp
    moreover have "int a < 812" "int b < 812" using ab(1,2) len by simp_all
    ultimately have "int a = int b" by (intro indexToLabel_inj) simp_all
    then show "a = b" by simp
  qed
  have d: "distinct (map Label hs)"
    unfolding lab using inj by (simp add: distinct_map)
  have "indexToLabel (int i) = Some (Label (hs ! i))" if "i < length hs" for i
  proof -
    obtain l where l: "indexToLabel (int i) = Some l"
      using indexToLabel_Some [of "int i"] by auto
    have "Label (hs ! i) = map Label hs ! i" using that by simp
    also have "\<dots> = the (indexToLabel (int i))" unfolding lab using that by simp
    finally show ?thesis using l by simp
  qed
  then show ?thesis using d by blast
qed

text \<open>
  C4, as the claim states it, fails: \<open>indexToLabel\<close> clamps the first character at the
  end of the alphabet, so from index \<open>|A| + |A|\<^sup>2\<close> on the labels repeat. A parse
  of one file with 813 fragments gives the hunks 784 and 812 the same label \<open>Zi\<close>.
\<close>

theorem parseDiff_labels_collide_counterexample:
  "\<not> isl (parseDiff libMany [])
   \<and> length (projr (parseDiff libMany [])) = 813
   \<and> Label (projr (parseDiff libMany []) ! 784) = ''Zi''
   \<and> Label (projr (parseDiff libMany []) ! 812) = ''Zi''"
proof -
  have p: "Parse libMany [] = Inr [\<lparr>NewName = ''big.go'', OldName = ''big.go'',
                                       TextFragments = replicate 813 fragA\<rparr>]"
    by (simp add: libMany_def)
  obtain hs where hs: "parseDiff libMany [] = Inr hs" "length hs = 813"
     "map Label hs = map (\<lambda>k. the (indexToLabel (int k))) [0 ..< length hs]"
    using parseDiff_labels [OF p] by auto
  have a: "indexToLabel 784 = Some ''Zi''" "indexToLabel 812 = Some ''Zi''"
    by code_simp+
  have "Label (hs ! 784) = map Label hs ! 784" "Label (hs ! 812) = map Label hs ! 812"
    using hs(2) by simp_all
  then have "Label (hs ! 784) = ''Zi''" "Label (hs ! 812) = ''Zi''"
    unfolding hs(3) using hs(2) a by simp_all
  then show ?thesis using hs(1,2) by simp
qed

theorem parseDiff_labels_distinct_witness:
  "\<not> isl (parseDiff libSmall [])
   \<and> length (projr (parseDiff libSmall []))
        \<le> length availableLabels + length availableLabels * length availableLabels
   \<and> distinct (map Label (projr (parseDiff libSmall [])))
   \<and> map Label (projr (parseDiff libSmall [])) = [''i'', ''l'', ''m'']"
proof -
  have p: "Parse libSmall [] = Inr [\<lparr>NewName = ''a/b.go'', OldName = ''a/b.go'',
                               TextFragments = [fragA, fragA]\<rparr>,
                              \<lparr>NewName = ''/dev/null'', OldName = ''docs/n.txt'',
                               TextFragments = [fragA]\<rparr>]"
    by (simp add: libSmall_def)
  obtain hs where hs: "parseDiff libSmall [] = Inr hs" "length hs = 3"
    using parseDiff_labels [OF p] by auto
  have le: "length hs \<le> length availableLabels + length availableLabels * length availableLabels"
    using hs(2) by (simp add: length_availableLabels)
  have i: "indexToLabel 0 = Some ''i''" "indexToLabel 1 = Some ''l''" "indexToLabel 2 = Some ''m''"
    by code_simp+
  from parseDiff_labels_distinct [OF hs(1) le]
  have d: "distinct (map Label hs)" and l: "\<forall>i<length hs. indexToLabel (int i) = Some (Label (hs ! i))"
    by simp_all
  obtain a b c where abc: "hs = [a, b, c]"
    using hs(2) by (auto simp: numeral_3_eq_3 length_Suc_conv)
  have "map Label hs = [''i'', ''l'', ''m'']"
    using l [rule_format, of 0] l [rule_format, of 1] l [rule_format, of 2] i
    by (simp add: abc)
  then show ?thesis using hs d le by simp
qed

subsection \<open>Pending label resolution\<close>

lemma HunkByLabel_None_iff:
  "HunkByLabel s l = None \<longleftrightarrow> \<not> (\<exists>h\<in>set (Hunks s). Label h = l)"
  by (simp add: HunkByLabel_def findLabel_takeWhile)

lemma take_strict_prefix:
  "(length p < length l \<and> take (length p) l = p) \<longleftrightarrow> strict_prefix p l"
proof
  assume a: "length p < length l \<and> take (length p) l = p"
  then have "l = p @ drop (length p) l" by (metis append_take_drop_id)
  then have "prefix p l" by (metis prefixI)
  moreover have "p \<noteq> l" using a by auto
  ultimately show "strict_prefix p l" by (simp add: strict_prefix_def)
next
  assume "strict_prefix p l"
  then obtain zs where zs: "l = p @ zs" "zs \<noteq> []"
    by (auto simp: strict_prefix_def prefix_def)
  then show "length p < length l \<and> take (length p) l = p" by simp
qed

lemma anyLabelPrefix_iff:
  "anyLabelPrefix hs p \<longleftrightarrow> (\<exists>h\<in>set hs. strict_prefix p (Label h))"
  by (induction hs) (auto simp: take_strict_prefix)

lemma hasLabelPrefix_iff:
  "hasLabelPrefix s p \<longleftrightarrow> (\<exists>h\<in>set (Hunks s). strict_prefix p (Label h))"
  by (simp add: hasLabelPrefix_def anyLabelPrefix_iff)

lemma pendingLabelKey_cases:
  assumes "\<forall>h\<in>set (Hunks s). Label h \<noteq> []"
  shows "pendingLabelKey run w s r =
     (let candidate = PendingLabel s @ encodeRune r;
          exact = (\<lambda>l. \<exists>h\<in>set (Hunks s). Label h = l);
          longer = (\<exists>h\<in>set (Hunks s). strict_prefix candidate (Label h));
          cleared = s\<lparr>PendingKey := 0, PendingLabel := []\<rparr>
      in if exact candidate \<and> \<not> longer then
           (False, run (w\<lparr>labelTimer := None\<rparr>) cleared (the (HunkByLabel s candidate)))
         else if exact candidate \<or> longer then
           (False, w\<lparr>labelTimer := Some (now w + 500 * Millisecond)\<rparr>,
            s\<lparr>PendingLabel := candidate, PendingTime := now w\<rparr>)
         else if exact (PendingLabel s) then
           (False, run (w\<lparr>labelTimer := None\<rparr>) cleared (the (HunkByLabel s (PendingLabel s))))
         else (False, w\<lparr>labelTimer := None\<rparr>, cleared))"
proof -
  let ?c = "PendingLabel s @ encodeRune r"
  have ne: "(\<exists>h\<in>set (Hunks s). Label h = PendingLabel s) \<Longrightarrow> PendingLabel s \<noteq> []"
    using assms by auto
  show ?thesis
  proof (cases "HunkByLabel s ?c")
    case None
    then have nex: "\<not> (\<exists>h\<in>set (Hunks s). Label h = ?c)"
      by (simp add: HunkByLabel_None_iff)
    show ?thesis
    proof (cases "hasLabelPrefix s ?c")
      case True
      then show ?thesis using None nex
        by (simp add: pendingLabelKey_def Let_def hasLabelPrefix_iff startLabelTimer_def
            cancelLabelTimer_def labelTimeout_def)
    next
      case False
      show ?thesis
      proof (cases "HunkByLabel s (PendingLabel s)")
        case pn: None
        then have "\<not> (\<exists>h\<in>set (Hunks s). Label h = PendingLabel s)"
          by (simp add: HunkByLabel_None_iff)
        then show ?thesis using pn None nex False
          by (simp add: pendingLabelKey_def Let_def hasLabelPrefix_iff cancelLabelTimer_def)
      next
        case (Some i)
        then have "\<exists>h\<in>set (Hunks s). Label h = PendingLabel s"
          using HunkByLabel_None_iff [of s "PendingLabel s"] by simp
        then show ?thesis using None nex False Some ne
          by (simp add: pendingLabelKey_def Let_def hasLabelPrefix_iff cancelLabelTimer_def)
      qed
    qed
  next
    case (Some i)
    then have ex: "\<exists>h\<in>set (Hunks s). Label h = ?c"
      using HunkByLabel_None_iff [of s ?c] by simp
    show ?thesis
    proof (cases "hasLabelPrefix s ?c")
      case True
      then have lg: "\<exists>h\<in>set (Hunks s). strict_prefix ?c (Label h)"
        by (simp add: hasLabelPrefix_iff)
      have "pendingLabelKey run w s r =
              (False, w\<lparr>labelTimer := Some (now w + 500 * Millisecond)\<rparr>,
               s\<lparr>PendingLabel := ?c, PendingTime := now w\<rparr>)"
        using True Some
        by (simp add: pendingLabelKey_def Let_def startLabelTimer_def
            cancelLabelTimer_def labelTimeout_def)
      then show ?thesis using ex lg
        by (simp add: Let_def) blast
    next
      case False
      then show ?thesis using Some ex
        by (simp add: pendingLabelKey_def Let_def hasLabelPrefix_iff cancelLabelTimer_def)
    qed
  qed
qed

text \<open>
  C2. In pending-label mode (the pending key is one of \<open>y\<close>, \<open>Y\<close>, \<open>p\<close>, \<open>c\<close>, \<open>A\<close>)
  a rune key \<open>r\<close> is handled with \<open>candidate = pending_label + r\<close> as follows. If some
  hunk's label is the candidate and no hunk's label has it as a strict prefix, the
  pending state is cleared, the timer cancelled and the command run on the hunk that
  \<open>HunkByLabel\<close> finds. Else, if the candidate is some hunk's label or a strict prefix of
  one, the candidate becomes the pending label and the timer is armed 500 ms ahead. Else,
  if the previous pending label is some hunk's label, the command is run on that hunk
  and \<open>r\<close> is dropped. Otherwise the pending state is cleared and nothing else happens.
  Labels are not empty, as the data model has it.
\<close>

theorem handlePending_label:
  assumes "PendingKey s = rune CHR ''y'' \<or> PendingKey s = rune CHR ''Y''
           \<or> PendingKey s = rune CHR ''p'' \<or> PendingKey s = rune CHR ''c''
           \<or> PendingKey s = rune CHR ''A''"
    and "eKey ev = KeyRune"
    and "\<forall>h\<in>set (Hunks s). Label h \<noteq> []"
  shows "handlePending N w s ev =
     (let candidate = PendingLabel s @ encodeRune (eRune ev);
          exact = (\<lambda>l. \<exists>h\<in>set (Hunks s). Label h = l);
          longer = (\<exists>h\<in>set (Hunks s). strict_prefix candidate (Label h));
          cleared = s\<lparr>PendingKey := 0, PendingLabel := []\<rparr>;
          run = (\<lambda>i. if PendingKey s = rune CHR ''A''
                      then handleStageHunk (w\<lparr>labelTimer := None\<rparr>) cleared i
                      else handleYankHunk (w\<lparr>labelTimer := None\<rparr>) cleared (PendingKey s) i)
      in if exact candidate \<and> \<not> longer then
           (False, run (the (HunkByLabel s candidate)))
         else if exact candidate \<or> longer then
           (False, w\<lparr>labelTimer := Some (now w + 500 * Millisecond)\<rparr>,
            s\<lparr>PendingLabel := candidate, PendingTime := now w\<rparr>)
         else if exact (PendingLabel s) then
           (False, run (the (HunkByLabel s (PendingLabel s))))
         else (False, w\<lparr>labelTimer := None\<rparr>, cleared))"
proof (cases "PendingKey s = rune CHR ''A''")
  case True
  have "handlePending N w s ev = pendingLabelKey handleStageHunk w s (eRune ev)"
    using True assms(2) by (simp add: handlePending_def rune_def)
  then show ?thesis
    using True by (simp only: pendingLabelKey_cases [OF assms(3)]) (simp add: Let_def)
next
  case False
  have "handlePending N w s ev
          = pendingLabelKey (\<lambda>w s' h. handleYankHunk w s' (PendingKey s) h) w s (eRune ev)"
    using False assms(1,2) by (auto simp: handlePending_def rune_def)
  then show ?thesis
    using False by (simp only: pendingLabelKey_cases [OF assms(3)]) (simp add: Let_def)
qed

theorem handlePending_label_witness:
  "(PendingKey statePending = rune CHR ''y'' \<or> PendingKey statePending = rune CHR ''Y''
      \<or> PendingKey statePending = rune CHR ''p'' \<or> PendingKey statePending = rune CHR ''c''
      \<or> PendingKey statePending = rune CHR ''A'')
   \<and> map Label (Hunks statePending) = [''c'', ''i'']
   \<and> handlePending nav0 sys0 statePending \<lparr>eKey = KeyRune, eRune = rune CHR ''c''\<rparr>
       = (False, sys0\<lparr>clipboard := [''return y, nil'']\<rparr>,
          statePending\<lparr>PendingKey := 0, PendingLabel := [],
                         FlashMsg := ''Yanked added lines from hunk c'',
                         FlashExpiry := 2 * Second\<rparr>)"
proof -
  let ?ev = "\<lparr>eKey = KeyRune, eRune = rune CHR ''c''\<rparr>"
  have k: "PendingKey statePending = rune CHR ''y'' \<or> PendingKey statePending = rune CHR ''Y''
      \<or> PendingKey statePending = rune CHR ''p'' \<or> PendingKey statePending = rune CHR ''c''
      \<or> PendingKey statePending = rune CHR ''A''"
    by (simp add: statePending_def zeroState_def)
  have e: "eKey ?ev = KeyRune" by simp
  have n: "\<forall>h\<in>set (Hunks statePending). Label h \<noteq> []"
    by (simp add: statePending_def zeroState_def hunkA_def)
  have c: "PendingLabel statePending @ encodeRune (eRune ?ev) = ''c''"
    by (simp add: statePending_def zeroState_def encodeRune_def rune_def char_of_def)
  have h: "HunkByLabel statePending ''c'' = Some 0"
    by (simp add: HunkByLabel_def statePending_def hunkA_def)
  have a: "AddedLines (hunkA\<lparr>Label := ''c''\<rparr>) = ''return y, nil''"
    by (simp add: AddedLines_def filterLines_def hunkA_def rune_def)
  have "handlePending nav0 sys0 statePending ?ev
       = (False, handleYankHunk (sys0\<lparr>labelTimer := None\<rparr>)
                   (statePending\<lparr>PendingKey := 0, PendingLabel := []\<rparr>) (rune CHR ''y'') 0)"
    using handlePending_label [OF k e n, of nav0 sys0]
    by (simp only: c h Let_def) (simp add: statePending_def hunkA_def rune_def strict_prefix_def)
  also have "\<dots> = (False, sys0\<lparr>clipboard := [''return y, nil'']\<rparr>,
          statePending\<lparr>PendingKey := 0, PendingLabel := [],
                         FlashMsg := ''Yanked added lines from hunk c'',
                         FlashExpiry := 2 * Second\<rparr>)"
    by (simp add: handleYankHunk_def Let_def copyToClipboard_def sys0_def statePending_def a)
  finally show ?thesis using k by (simp add: statePending_def hunkA_def)
qed

subsection \<open>Result lines and staging\<close>

lemma result_loop:
  "foldl (\<lambda>lines l. if Op l = rune CHR '' '' \<or> Op l = rune CHR ''+''
                       then lines @ [Content l] else lines) acc ls
     = acc @ map Content (filter (\<lambda>l. Op l = rune CHR '' '' \<or> Op l = rune CHR ''+'') ls)"
  by (induction ls arbitrary: acc) simp_all

lemma ResultLines_eq:
  "ResultLines h = Join (map Content (filter (\<lambda>l. Op l = rune CHR '' '' \<or> Op l = rune CHR ''+'')
                                        (Lines h))) [newline]"
  by (simp add: ResultLines_def result_loop)

text \<open>
  C8. \<open>ResultLines h\<close> is the contents of the context and \<open>'+'\<close> lines of \<open>h\<close>, in order,
  joined with a newline. For a hunk of \<open>'+'\<close> lines only it equals \<open>AddedLines h\<close>; for a
  hunk of \<open>'-'\<close> lines only it is empty. The command \<open>c\<close> of \<open>handleYankHunk\<close> passes
  it, when it is not empty, to the clipboard.
\<close>

theorem ResultLines_join:
  "ResultLines h = Join (map Content (filter (\<lambda>l. Op l = rune CHR '' '' \<or> Op l = rune CHR ''+'')
                                        (Lines h))) [newline]
   \<and> ((\<forall>l\<in>set (Lines h). Op l = rune CHR ''+'') \<longrightarrow> ResultLines h = AddedLines h)
   \<and> ((\<forall>l\<in>set (Lines h). Op l = rune CHR ''-'') \<longrightarrow> ResultLines h = [])
   \<and> (ResultLines (Hunks s ! i) \<noteq> [] \<longrightarrow>
        clipboard (fst (handleYankHunk w s (rune CHR ''c'') i))
          = clipboard w @ [ResultLines (Hunks s ! i)])"
proof (intro conjI impI)
  show "ResultLines h = Join (map Content (filter (\<lambda>l. Op l = rune CHR '' '' \<or> Op l = rune CHR ''+'')
                                        (Lines h))) [newline]"
    by (rule ResultLines_eq)
next
  assume a: "\<forall>l\<in>set (Lines h). Op l = rune CHR ''+''"
  then have "filter (\<lambda>l. Op l = rune CHR '' '' \<or> Op l = rune CHR ''+'') (Lines h)
               = filter (\<lambda>l. Op l = rune CHR ''+'') (Lines h)"
    by (intro filter_cong) auto
  then show "ResultLines h = AddedLines h"
    by (simp add: ResultLines_eq AddedLines_def filterLines_eq)
next
  assume a: "\<forall>l\<in>set (Lines h). Op l = rune CHR ''-''"
  have "rune CHR ''-'' \<noteq> rune CHR '' ''" "rune CHR ''-'' \<noteq> rune CHR ''+''"
    by (simp_all add: rune_def)
  with a have "filter (\<lambda>l. Op l = rune CHR '' '' \<or> Op l = rune CHR ''+'') (Lines h) = []"
    by (auto simp: filter_empty_conv)
  then show "ResultLines h = []"
    by (simp add: ResultLines_eq)
next
  assume "ResultLines (Hunks s ! i) \<noteq> []"
  moreover have "rune CHR ''c'' \<noteq> rune CHR ''y''" "rune CHR ''c'' \<noteq> rune CHR ''Y''"
    "rune CHR ''c'' \<noteq> rune CHR ''p''"
    by (simp_all add: rune_def)
  ultimately show "clipboard (fst (handleYankHunk w s (rune CHR ''c'') i))
          = clipboard w @ [ResultLines (Hunks s ! i)]"
    by (simp add: handleYankHunk_def Let_def copyToClipboard_def split: bool.splits)
qed

theorem ResultLines_join_witness:
  "ResultLines hunkA = ''x'' @ [newline] @ ''return y, nil''
   \<and> map Op (Lines (hunkA\<lparr>Lines := [\<lparr>Op = rune CHR ''+'', Content = ''a''\<rparr>]\<rparr>)) = [rune CHR ''+'']
   \<and> ResultLines (hunkA\<lparr>Lines := [\<lparr>Op = rune CHR ''+'', Content = ''a''\<rparr>]\<rparr>) = ''a''
   \<and> map Op (Lines (hunkA\<lparr>Lines := [\<lparr>Op = rune CHR ''-'', Content = ''a''\<rparr>]\<rparr>)) = [rune CHR ''-'']
   \<and> ResultLines (hunkA\<lparr>Lines := [\<lparr>Op = rune CHR ''-'', Content = ''a''\<rparr>]\<rparr>) = []
   \<and> ResultLines (Hunks statePending ! 1) \<noteq> []
   \<and> clipboard (fst (handleYankHunk sys0 statePending (rune CHR ''c'') 1))
       = [''x'' @ [newline] @ ''return y, nil'']"
proof -
  let ?p = "hunkA\<lparr>Lines := [\<lparr>Op = rune CHR ''+'', Content = ''a''\<rparr>]\<rparr>"
  let ?m = "hunkA\<lparr>Lines := [\<lparr>Op = rune CHR ''-'', Content = ''a''\<rparr>]\<rparr>"
  have r: "ResultLines hunkA = ''x'' @ [newline] @ ''return y, nil''"
    using ResultLines_join [of hunkA, THEN conjunct1]
    by (simp add: hunkA_def rune_def)
  have p: "\<forall>l\<in>set (Lines ?p). Op l = rune CHR ''+''" by simp
  have m: "\<forall>l\<in>set (Lines ?m). Op l = rune CHR ''-''" by simp
  have rp: "ResultLines ?p = ''a''"
    using ResultLines_join [of ?p, THEN conjunct2, THEN conjunct1] p
    by (simp add: AddedLines_def filterLines_def)
  have rm: "ResultLines ?m = []"
    using ResultLines_join [of ?m, THEN conjunct2, THEN conjunct2, THEN conjunct1] m by blast
  have h1: "Hunks statePending ! Suc 0 = hunkA"
    by (simp add: statePending_def)
  have ne: "ResultLines (Hunks statePending ! 1) \<noteq> []"
    by (simp add: h1 r)
  have c: "clipboard (fst (handleYankHunk sys0 statePending (rune CHR ''c'') 1))
       = [''x'' @ [newline] @ ''return y, nil'']"
    using ResultLines_join [of hunkA statePending 1 sys0, THEN conjunct2, THEN conjunct2, THEN conjunct2] ne
    by (simp add: h1 r sys0_def)
  show ?thesis using r rp rm ne c by simp
qed

text \<open>
  C9. \<open>handleStageHunk\<close> runs \<open>git apply --cached\<close>, with \<open>-R\<close> added when the hunk is
  already staged, on the hunk's full patch as standard input. When the run succeeds the
  hunk's \<open>Staged\<close> flag is toggled; when it fails the hunks are left as they are and the
  flash message is \<open>Stage failed for hunk L: err\<close>, or \<open>Unstage failed ...\<close> for a
  staged hunk. The flash expires after two seconds.
\<close>

theorem handleStageHunk_toggle:
  assumes "i < length (Hunks s)"
  shows "let h = Hunks s ! i;
             args = [''apply'', ''--cached''] @ (if Staged h then [''-R''] else []);
             w' = fst (handleStageHunk w s i);
             s' = snd (handleStageHunk w s i)
         in runs w' = runs w @ [(''git'', args, AsFullPatch h)]
            \<and> (case runResult w ''git'' args (AsFullPatch h) of
                  None \<Rightarrow>
                    Staged (Hunks s' ! i) = (\<not> Staged h)
                    \<and> Hunks s' = (Hunks s)[i := h\<lparr>Staged := \<not> Staged h\<rparr>]
                    \<and> FlashMsg s' = (if Staged h then ''Unstaged hunk '' else ''Staged hunk '')
                                     @ Label h
                    \<and> FlashExpiry s' = now w + 2 * Second
                | Some err \<Rightarrow>
                    Hunks s' = Hunks s
                    \<and> FlashMsg s' = (if Staged h then ''Unstage'' else ''Stage'')
                                     @ '' failed for hunk '' @ Label h @ '': '' @ err
                    \<and> FlashExpiry s' = now w + 2 * Second)"
  using assms
  by (simp add: handleStageHunk_def Let_def split: option.splits)

theorem handleStageHunk_toggle_witness:
  "(1::nat) < length (Hunks statePending)
   \<and> runs (fst (handleStageHunk sysFail statePending 1))
       = [(''git'', [''apply'', ''--cached''], AsFullPatch hunkA)]
   \<and> Hunks (snd (handleStageHunk sysFail statePending 1)) = Hunks statePending
   \<and> FlashMsg (snd (handleStageHunk sysFail statePending 1))
       = ''Stage failed for hunk i: exit status 1''
   \<and> Staged (Hunks (snd (handleStageHunk sys0 statePending 1)) ! 1)
   \<and> FlashMsg (snd (handleStageHunk sys0 statePending 1)) = ''Staged hunk i''"
proof -
  have l: "(1::nat) < length (Hunks statePending)"
    by (simp add: statePending_def)
  have h1: "Hunks statePending ! Suc 0 = hunkA" "\<not> Staged hunkA" "Label hunkA = ''i''"
    by (simp_all add: statePending_def hunkA_def)
  have f: "runResult sysFail ''git'' [''apply'', ''--cached''] (AsFullPatch hunkA) = Some ''exit status 1''"
    "runs sysFail = []"
    by (simp_all add: sysFail_def sys0_def)
  have g: "runResult sys0 ''git'' [''apply'', ''--cached''] (AsFullPatch hunkA) = None"
    by (simp add: sys0_def)
  show ?thesis
    using handleStageHunk_toggle [OF l, of sysFail] handleStageHunk_toggle [OF l, of sys0] l
    by (simp add: Let_def h1 f g)
qed

subsection \<open>The side-by-side build\<close>

lemma bindF_Inr [simp]: "bindF (Inr x) f = f x"
  by (simp add: bindF_def)

lemma bindF_Inl [simp]: "bindF (Inl e) f = Inl e"
  by (simp add: bindF_def)

lemma bindF_eq_Inr:
  "bindF m f = Inr y \<longleftrightarrow> (\<exists>x. m = Inr x \<and> f x = Inr y)"
  by (cases m) simp_all

lemma rune_ops_distinct:
  "rune CHR ''-'' \<noteq> rune CHR ''+''" "rune CHR ''-'' \<noteq> rune CHR '' ''"
  "rune CHR ''+'' \<noteq> rune CHR '' ''" "rune CHR ''+'' \<noteq> rune CHR ''-''"
  "rune CHR '' '' \<noteq> rune CHR ''+''" "rune CHR '' '' \<noteq> rune CHR ''-''"
  by (simp_all add: rune_def)

lemma sbsRows_total:
  assumes "\<forall>l\<in>set ls. Op l = rune CHR '' '' \<or> Op l = rune CHR ''-'' \<or> Op l = rune CHR ''+''"
  shows "\<exists>rows. sbsRows i oldNo newNo ls = Inr rows"
  using assms
proof (induction i oldNo newNo ls rule: sbsRows.induct)
  case (1 i oldNo newNo)
  then show ?case by simp
next
  case (2 i oldNo newNo dl rest)
  show ?case
  proof (cases "Op dl = rune CHR '' ''")
    case True
    then obtain rows where "sbsRows i (oldNo + 1) (newNo + 1) rest = Inr rows"
      using 2 by auto
    then show ?thesis using True by simp
  next
    case False
    let ?ls = "dl # rest"
    have nonempty: "\<not> (takeRemoves ?ls = [] \<and> takeAdds (dropRemoves ?ls) = [])"
      using False 2(3) by (auto simp: takeRemoves_def dropRemoves_def takeAdds_def)
    have "set (dropAdds (dropRemoves ?ls)) \<subseteq> set ?ls"
      unfolding dropAdds_def dropRemoves_def
      by (meson set_dropWhileD subsetI)
    then have "\<forall>l\<in>set (dropAdds (dropRemoves ?ls)).
                 Op l = rune CHR '' '' \<or> Op l = rune CHR ''-'' \<or> Op l = rune CHR ''+''"
      using 2(3) by blast
    then obtain rows where
      "sbsRows i (oldNo + int (length (takeRemoves ?ls)))
         (newNo + int (length (takeAdds (dropRemoves ?ls)))) (dropAdds (dropRemoves ?ls)) = Inr rows"
      using 2(2) [OF False nonempty] by auto
    then show ?thesis using False nonempty by simp
  qed
qed

lemma takeWhile_run:
  assumes "\<forall>x\<in>set xs. P x" "ys = [] \<or> \<not> P (hd ys)"
  shows "takeWhile P (xs @ ys) = xs" "dropWhile P (xs @ ys) = ys"
proof -
  have t: "takeWhile P ys = []" using assms(2) by (cases ys) auto
  have d: "dropWhile P ys = ys" using assms(2) by (cases ys) auto
  show "takeWhile P (xs @ ys) = xs" using assms(1) t by (simp add: takeWhile_append2)
  show "dropWhile P (xs @ ys) = ys" using assms(1) d by (simp add: dropWhile_append2)
qed

lemma sbsRows_run:
  assumes r: "\<forall>l\<in>set removes. Op l = rune CHR ''-''"
    and a: "\<forall>l\<in>set adds. Op l = rune CHR ''+''"
    and ne: "removes \<noteq> [] \<or> adds \<noteq> []"
    and m: "rest = [] \<or> (Op (hd rest) \<noteq> rune CHR ''+'' \<and> (adds = [] \<longrightarrow> Op (hd rest) \<noteq> rune CHR ''-''))"
  shows "sbsRows i oldNo newNo (removes @ adds @ rest)
           = bindF (sbsRows i (oldNo + int (length removes)) (newNo + int (length adds)) rest)
               (\<lambda>rows. Inr (pairRows i removes oldNo adds newNo @ rows))"
proof -
  let ?ls = "removes @ adds @ rest"
  have stop: "adds @ rest = [] \<or> \<not> Op (hd (adds @ rest)) = rune CHR ''-''"
    using a m rune_ops_distinct by (cases adds) auto
  have tr: "takeRemoves ?ls = removes" and dr: "dropRemoves ?ls = adds @ rest"
    unfolding takeRemoves_def dropRemoves_def
    using takeWhile_run [of removes "\<lambda>l. Op l = rune CHR ''-''" "adds @ rest"] r stop by simp_all
  have stop2: "rest = [] \<or> \<not> Op (hd rest) = rune CHR ''+''"
    using m by auto
  have ta: "takeAdds (adds @ rest) = adds" and da: "dropAdds (adds @ rest) = rest"
    unfolding takeAdds_def dropAdds_def
    using takeWhile_run [of adds "\<lambda>l. Op l = rune CHR ''+''" rest] a stop2 by simp_all
  obtain dl tl where c: "?ls = dl # tl"
    using ne by (cases ?ls) auto
  have first: "Op dl \<noteq> rune CHR '' ''"
  proof (cases removes)
    case Nil
    then obtain x xs where "adds = x # xs" using ne by (cases adds) auto
    then show ?thesis using Nil c a rune_ops_distinct by auto
  next
    case (Cons x xs)
    then show ?thesis using c r rune_ops_distinct by auto
  qed
  have "sbsRows i oldNo newNo (dl # tl) =
          (if takeRemoves (dl # tl) = [] \<and> takeAdds (dropRemoves (dl # tl)) = [] then Inl Diverges
           else bindF (sbsRows i (oldNo + int (length (takeRemoves (dl # tl))))
                 (newNo + int (length (takeAdds (dropRemoves (dl # tl)))))
                 (dropAdds (dropRemoves (dl # tl))))
                (\<lambda>rows. Inr (pairRows i (takeRemoves (dl # tl)) oldNo
                           (takeAdds (dropRemoves (dl # tl))) newNo @ rows)))"
    using first by (simp only: sbsRows.simps(2) if_False)
  then have "sbsRows i oldNo newNo ?ls =
          (if removes = [] \<and> adds = [] then Inl Diverges
           else bindF (sbsRows i (oldNo + int (length removes)) (newNo + int (length adds)) rest)
                (\<lambda>rows. Inr (pairRows i removes oldNo adds newNo @ rows)))"
    by (simp only: c [symmetric] tr dr ta da)
  then show ?thesis using ne by auto
qed

lemma pairRows_nth:
  assumes "k < max (length removes) (length adds)"
  shows "pairRows i removes oldNo adds newNo ! k =
           zeroLine\<lparr>Style := (if k < length removes then StyleRemoved else StyleAdded),
                    HunkIdx := i,
                    Left := (if k < length removes
                             then \<lparr>hText = ''-'' @ Content (removes ! k), hStyle = StyleRemoved,
                                   LineNo = oldNo + int k\<rparr>
                             else zeroHalf),
                    Right := (if k < length adds
                              then \<lparr>hText = ''+'' @ Content (adds ! k), hStyle = StyleAdded,
                                    LineNo = newNo + int k\<rparr>
                              else zeroHalf)\<rparr>"
proof -
  have "pairRows i removes oldNo adds newNo ! k = pairRow i removes oldNo adds newNo k"
    using assms by (simp add: pairRows_def)
  moreover have "k < length removes \<or> k < length adds" using assms by auto
  ultimately show ?thesis
    by (auto simp: pairRow_def Let_def zeroHalf_def)
qed

lemma hunkLoop_rows:
  assumes "hunkLoop R ff i hs lines cur = Inr (hs', lines')"
  shows "length hs' = length hs \<and> (\<exists>ext. lines' = lines @ ext)
         \<and> (\<forall>k<length hs. (ff = [] \<or> File (hs ! k) = ff) \<longrightarrow>
              (\<exists>rows st. R (int (i + k)) (hs ! k) = Inr rows
                  \<and> hs' ! k = (hs ! k)\<lparr>StartLine := int st\<rparr>
                  \<and> length lines \<le> st
                  \<and> st < length lines'
                  \<and> lines' ! st = hunkHeaderLine (hs ! k) (int (i + k))
                  \<and> take (length rows) (drop (Suc st) lines') = rows))"
  using assms
proof (induction hs arbitrary: i lines cur hs' lines')
  case Nil
  then show ?case by simp
next
  case (Cons h hs)
  show ?case
  proof (cases "ff \<noteq> [] \<and> File h \<noteq> ff")
    case True
    then obtain hs1 where r: "hunkLoop R ff (Suc i) hs lines cur = Inr (hs1, lines')"
        and hs': "hs' = h\<lparr>StartLine := - 1\<rparr> # hs1"
      using Cons.prems by (auto simp: bindF_eq_Inr)
    note ih = Cons.IH [OF r]
    have "\<exists>rows st. R (int (i + k)) ((h # hs) ! k) = Inr rows
                  \<and> hs' ! k = ((h # hs) ! k)\<lparr>StartLine := int st\<rparr>
                  \<and> length lines \<le> st \<and> st < length lines'
                  \<and> lines' ! st = hunkHeaderLine ((h # hs) ! k) (int (i + k))
                  \<and> take (length rows) (drop (Suc st) lines') = rows"
      if k: "k < length (h # hs)" and f: "ff = [] \<or> File ((h # hs) ! k) = ff" for k
    proof (cases k)
      case 0
      then show ?thesis using True f by auto
    next
      case (Suc k')
      then have "k' < length hs" "ff = [] \<or> File (hs ! k') = ff" using k f by simp_all
      with ih show ?thesis using Suc hs' by auto
    qed
    then show ?thesis using ih hs' by auto
  next
    case False
    define lines1 where "lines1 = (if File h \<noteq> cur
                       then (if cur \<noteq> [] then lines @ [blankLine] else lines)
                            @ [fileHeaderLine (File h)]
                       else lines)"
    define cur1 where "cur1 = (if File h \<noteq> cur then File h else cur)"
    define lines2 where "lines2 = lines1 @ [blankLine]"
    define lines3 where "lines3 = lines2 @ [hunkHeaderLine h (int i)]"
    have unfold: "hunkLoop R ff i (h # hs) lines cur =
        bindF (R (int i) h)
          (\<lambda>rows. bindF (hunkLoop R ff (Suc i) hs (lines3 @ rows) cur1)
             (\<lambda>(hs', lines'). Inr (h\<lparr>StartLine := int (length lines2)\<rparr> # hs', lines')))"
      by (simp only: hunkLoop.simps(2) if_not_P [OF False] Let_def lines1_def cur1_def
          lines2_def lines3_def)
    obtain rows hs1 where rows: "R (int i) h = Inr rows"
        and r: "hunkLoop R ff (Suc i) hs (lines3 @ rows) cur1 = Inr (hs1, lines')"
        and hs': "hs' = h\<lparr>StartLine := int (length lines2)\<rparr> # hs1"
      using Cons.prems unfolding unfold by (auto simp: bindF_eq_Inr)
    note ih = Cons.IH [OF r]
    obtain ext where ext: "lines' = (lines3 @ rows) @ ext" using ih by blast
    have pre: "\<exists>e. lines2 = lines @ e"
      by (simp add: lines2_def lines1_def)
    then obtain e where e: "lines2 = lines @ e" by blast
    have l2: "length lines \<le> length lines2" using e by simp
    have l3: "length lines3 = Suc (length lines2)" by (simp add: lines3_def)
    have "\<exists>rows st. R (int (i + k)) ((h # hs) ! k) = Inr rows
                  \<and> hs' ! k = ((h # hs) ! k)\<lparr>StartLine := int st\<rparr>
                  \<and> length lines \<le> st \<and> st < length lines'
                  \<and> lines' ! st = hunkHeaderLine ((h # hs) ! k) (int (i + k))
                  \<and> take (length rows) (drop (Suc st) lines') = rows"
      if k: "k < length (h # hs)" and f: "ff = [] \<or> File ((h # hs) ! k) = ff" for k
    proof (cases k)
      case 0
      have "lines' = lines2 @ hunkHeaderLine h (int i) # rows @ ext"
        by (simp add: ext lines3_def)
      then have "lines' ! length lines2 = hunkHeaderLine h (int i)"
        "take (length rows) (drop (Suc (length lines2)) lines') = rows"
        "length lines2 < length lines'"
        by (simp_all add: nth_append)
      then show ?thesis using 0 rows hs' l2 by auto
    next
      case (Suc k')
      then have "k' < length hs" "ff = [] \<or> File (hs ! k') = ff" using k f by simp_all
      with ih obtain rows' st where
        "R (int (Suc i + k')) (hs ! k') = Inr rows'" "hs1 ! k' = (hs ! k')\<lparr>StartLine := int st\<rparr>"
        "length (lines3 @ rows) \<le> st" "st < length lines'"
        "lines' ! st = hunkHeaderLine (hs ! k') (int (Suc i + k'))"
        "take (length rows') (drop (Suc st) lines') = rows'"
        by blast
      moreover have "length lines \<le> length (lines3 @ rows)" using l2 l3 by simp
      ultimately show ?thesis using Suc hs' by auto
    qed
    moreover have "\<exists>ext. lines' = lines @ ext"
      using ext e by (simp add: lines3_def)
    ultimately show ?thesis using ih hs' by auto
  qed
qed

lemma hunkLoop_total:
  assumes "\<forall>k<length hs. \<exists>rows. R (int (i + k)) (hs ! k) = Inr rows"
  shows "\<exists>res. hunkLoop R ff i hs lines cur = Inr res"
  using assms
proof (induction hs arbitrary: i lines cur)
  case Nil
  then show ?case by simp
next
  case (Cons h hs)
  have tl: "\<forall>k<length hs. \<exists>rows. R (int (Suc i + k)) (hs ! k) = Inr rows"
    using Cons.prems by (metis add_Suc_shift length_Cons not_less_eq nth_Cons_Suc)
  obtain rows where rows: "R (int i) h = Inr rows"
    using Cons.prems by fastforce
  show ?case
  proof (cases "ff \<noteq> [] \<and> File h \<noteq> ff")
    case True
    obtain res where "hunkLoop R ff (Suc i) hs lines cur = Inr res"
      using Cons.IH [OF tl] by blast
    then show ?thesis using True by (cases res) auto
  next
    case False
    define lines3 where "lines3 = (if File h \<noteq> cur
                       then (if cur \<noteq> [] then lines @ [blankLine] else lines)
                            @ [fileHeaderLine (File h)]
                       else lines) @ [blankLine] @ [hunkHeaderLine h (int i)]"
    obtain res where res: "hunkLoop R ff (Suc i) hs (lines3 @ rows) (if File h \<noteq> cur then File h else cur) = Inr res"
      using Cons.IH [OF tl] by blast
    have "hunkLoop R ff i (h # hs) lines cur =
        bindF (R (int i) h)
          (\<lambda>rows. bindF (hunkLoop R ff (Suc i) hs (lines3 @ rows) (if File h \<noteq> cur then File h else cur))
             (\<lambda>(hs', lines'). Inr (h\<lparr>StartLine := int (length lines3) - 1\<rparr> # hs', lines')))"
      by (simp only: hunkLoop.simps(2) if_not_P [OF False] Let_def lines3_def) simp
    then show ?thesis using rows res by (cases res) simp
  qed
qed

lemma build_stateSbs: "buildSideBySideLines stateSbs = Inr stateSbsBuilt"
  by code_simp

text \<open>
  C5, amended. When every op is \<open>' '\<close>, \<open>'-'\<close> or \<open>'+'\<close> the side-by-side build
  returns. The rows of a hunk that is not filtered out follow its header line in the
  display lines and are \<open>sbsRows\<close> of its lines. There a context line gives one row;
  a maximal run of consecutive \<open>'-'\<close> lines and the \<open>'+'\<close> lines right after it
  are paired by index into \<open>max\<close> of the two lengths rows, the shorter side padded with
  empty halves. The style of a row is removed whenever its left half exists, paired
  with a right half or not, and added when only the right half exists.
\<close>

theorem buildSideBySideLines_pairing:
  "((\<forall>h\<in>set (Hunks s). \<forall>l\<in>set (Lines h).
        Op l = rune CHR '' '' \<or> Op l = rune CHR ''-'' \<or> Op l = rune CHR ''+'')
      \<longrightarrow> (\<exists>s'. buildSideBySideLines s = Inr s'))
   \<and> (buildSideBySideLines s = Inr s' \<and> k < length (Hunks s)
        \<and> (FilterFile s = [] \<or> File (Hunks s ! k) = FilterFile s)
      \<longrightarrow> (\<exists>rows st. sbsRows (int k) (OldStart (Hunks s ! k)) (NewStart (Hunks s ! k))
                          (Lines (Hunks s ! k)) = Inr rows
             \<and> StartLine (Hunks s' ! k) = int st \<and> st < length (sLines s')
             \<and> sLines s' ! st = hunkHeaderLine (Hunks s ! k) (int k)
             \<and> take (length rows) (drop (Suc st) (sLines s')) = rows))
   \<and> (Op dl = rune CHR '' ''
      \<longrightarrow> sbsRows i oldNo newNo (dl # rest)
            = bindF (sbsRows i (oldNo + 1) (newNo + 1) rest)
                (\<lambda>rows. Inr (contextRow i dl oldNo newNo # rows)))
   \<and> ((\<forall>l\<in>set removes. Op l = rune CHR ''-'') \<and> (\<forall>l\<in>set adds. Op l = rune CHR ''+'')
        \<and> (removes \<noteq> [] \<or> adds \<noteq> [])
        \<and> (rest = [] \<or> (Op (hd rest) \<noteq> rune CHR ''+''
                          \<and> (adds = [] \<longrightarrow> Op (hd rest) \<noteq> rune CHR ''-'')))
      \<longrightarrow> sbsRows i oldNo newNo (removes @ adds @ rest)
            = bindF (sbsRows i (oldNo + int (length removes)) (newNo + int (length adds)) rest)
                (\<lambda>rows. Inr (pairRows i removes oldNo adds newNo @ rows))
          \<and> length (pairRows i removes oldNo adds newNo) = max (length removes) (length adds)
          \<and> (\<forall>j<max (length removes) (length adds).
                pairRows i removes oldNo adds newNo ! j =
                  zeroLine\<lparr>Style := (if j < length removes then StyleRemoved else StyleAdded),
                           HunkIdx := i,
                           Left := (if j < length removes
                                    then \<lparr>hText = ''-'' @ Content (removes ! j),
                                          hStyle = StyleRemoved, LineNo = oldNo + int j\<rparr>
                                    else zeroHalf),
                           Right := (if j < length adds
                                     then \<lparr>hText = ''+'' @ Content (adds ! j),
                                           hStyle = StyleAdded, LineNo = newNo + int j\<rparr>
                                     else zeroHalf)\<rparr>))"
proof (intro conjI impI)
  assume ops: "\<forall>h\<in>set (Hunks s). \<forall>l\<in>set (Lines h).
        Op l = rune CHR '' '' \<or> Op l = rune CHR ''-'' \<or> Op l = rune CHR ''+''"
  have "\<forall>k<length (Hunks s). \<exists>rows.
          sbsRows (int (0 + k)) (OldStart (Hunks s ! k)) (NewStart (Hunks s ! k))
            (Lines (Hunks s ! k)) = Inr rows"
  proof (intro allI impI)
    fix k assume "k < length (Hunks s)"
    then have "\<forall>l\<in>set (Lines (Hunks s ! k)).
        Op l = rune CHR '' '' \<or> Op l = rune CHR ''-'' \<or> Op l = rune CHR ''+''"
      using ops nth_mem by blast
    then show "\<exists>rows. sbsRows (int (0 + k)) (OldStart (Hunks s ! k)) (NewStart (Hunks s ! k))
            (Lines (Hunks s ! k)) = Inr rows"
      by (rule sbsRows_total)
  qed
  then obtain res where
    "hunkLoop (\<lambda>i h. sbsRows i (OldStart h) (NewStart h) (Lines h)) (FilterFile s) 0 (Hunks s) [] []
       = Inr res"
    using hunkLoop_total
      [of "Hunks s" "\<lambda>i h. sbsRows i (OldStart h) (NewStart h) (Lines h)" 0 "FilterFile s" "[]" "[]"]
    by blast
  then show "\<exists>s'. buildSideBySideLines s = Inr s'"
    by (cases res) (simp add: buildSideBySideLines_def)
next
  assume a: "buildSideBySideLines s = Inr s' \<and> k < length (Hunks s)
        \<and> (FilterFile s = [] \<or> File (Hunks s ! k) = FilterFile s)"
  then obtain hs' lines' where
    loop: "hunkLoop (\<lambda>i h. sbsRows i (OldStart h) (NewStart h) (Lines h)) (FilterFile s) 0
             (Hunks s) [] [] = Inr (hs', lines')"
    and s': "s' = s\<lparr>Hunks := hs', sLines := lines'\<rparr>"
    by (auto simp: buildSideBySideLines_def bindF_eq_Inr)
  from hunkLoop_rows [OF loop] a s'
  show "\<exists>rows st. sbsRows (int k) (OldStart (Hunks s ! k)) (NewStart (Hunks s ! k))
                          (Lines (Hunks s ! k)) = Inr rows
             \<and> StartLine (Hunks s' ! k) = int st \<and> st < length (sLines s')
             \<and> sLines s' ! st = hunkHeaderLine (Hunks s ! k) (int k)
             \<and> take (length rows) (drop (Suc st) (sLines s')) = rows"
    by fastforce
next
  assume "Op dl = rune CHR '' ''"
  then show "sbsRows i oldNo newNo (dl # rest)
            = bindF (sbsRows i (oldNo + 1) (newNo + 1) rest)
                (\<lambda>rows. Inr (contextRow i dl oldNo newNo # rows))"
    by simp
next
  assume a: "(\<forall>l\<in>set removes. Op l = rune CHR ''-'') \<and> (\<forall>l\<in>set adds. Op l = rune CHR ''+'')
        \<and> (removes \<noteq> [] \<or> adds \<noteq> [])
        \<and> (rest = [] \<or> (Op (hd rest) \<noteq> rune CHR ''+''
                          \<and> (adds = [] \<longrightarrow> Op (hd rest) \<noteq> rune CHR ''-'')))"
  then show "sbsRows i oldNo newNo (removes @ adds @ rest)
            = bindF (sbsRows i (oldNo + int (length removes)) (newNo + int (length adds)) rest)
                (\<lambda>rows. Inr (pairRows i removes oldNo adds newNo @ rows))"
    by (intro sbsRows_run) simp_all
next
  show "length (pairRows i removes oldNo adds newNo) = max (length removes) (length adds)"
    by (simp add: pairRows_def)
next
  show "\<forall>j<max (length removes) (length adds).
                pairRows i removes oldNo adds newNo ! j =
                  zeroLine\<lparr>Style := (if j < length removes then StyleRemoved else StyleAdded),
                           HunkIdx := i,
                           Left := (if j < length removes
                                    then \<lparr>hText = ''-'' @ Content (removes ! j),
                                          hStyle = StyleRemoved, LineNo = oldNo + int j\<rparr>
                                    else zeroHalf),
                           Right := (if j < length adds
                                     then \<lparr>hText = ''+'' @ Content (adds ! j),
                                           hStyle = StyleAdded, LineNo = newNo + int j\<rparr>
                                     else zeroHalf)\<rparr>"
    using pairRows_nth by blast
qed

text \<open>
  C5, as the claim states it, fails: a row where both halves exist does not get the
  context style. In the build of \<open>hunkA\<close> the row that pairs the removed line with
  the added line has the style removed.
\<close>

theorem buildSideBySideLines_paired_style_counterexample:
  "buildSideBySideLines stateSbs = Inr stateSbsBuilt
   \<and> hText (Left (sLines stateSbsBuilt ! 4)) = ''-return y''
   \<and> hText (Right (sLines stateSbsBuilt ! 4)) = ''+return y, nil''
   \<and> Style (sLines stateSbsBuilt ! 4) = StyleRemoved
   \<and> Style (sLines stateSbsBuilt ! 4) \<noteq> StyleContext"
  using build_stateSbs by (simp add: stateSbsBuilt_def)

theorem buildSideBySideLines_pairing_witness:
  "Lines hunkA = [lineCtx, lineRem, lineAdd]
   \<and> sbsRows 0 2 2 ([lineRem] @ [lineAdd] @ []) = Inr [rowRemAdd]
   \<and> sbsRows 0 1 1 (lineCtx # [lineRem, lineAdd]) = Inr [contextRow 0 lineCtx 1 1, rowRemAdd]
   \<and> buildSideBySideLines stateSbs = Inr stateSbsBuilt
   \<and> StartLine (Hunks stateSbsBuilt ! 0) = 2
   \<and> sLines stateSbsBuilt ! 2 = hunkHeaderLine hunkA 0
   \<and> take 2 (drop 3 (sLines stateSbsBuilt)) = [contextRow 0 lineCtx 1 1, rowRemAdd]"
proof -
  let ?P = "pairRows 0 [lineRem] 2 [lineAdd] 2"
  have ls: "Lines hunkA = [lineCtx, lineRem, lineAdd]"
    by (simp add: hunkA_def lineCtx_def lineRem_def lineAdd_def)
  have run: "sbsRows 0 2 2 ([lineRem] @ [lineAdd] @ [])
               = bindF (sbsRows 0 (2 + int (length [lineRem])) (2 + int (length [lineAdd])) [])
                   (\<lambda>rows. Inr (?P @ rows))
             \<and> length ?P = max (length [lineRem]) (length [lineAdd])
             \<and> (\<forall>j<max (length [lineRem]) (length [lineAdd]).
                  ?P ! j =
                  zeroLine\<lparr>Style := (if j < length [lineRem] then StyleRemoved else StyleAdded),
                           HunkIdx := 0,
                           Left := (if j < length [lineRem]
                                    then \<lparr>hText = ''-'' @ Content ([lineRem] ! j),
                                          hStyle = StyleRemoved, LineNo = 2 + int j\<rparr>
                                    else zeroHalf),
                           Right := (if j < length [lineAdd]
                                     then \<lparr>hText = ''+'' @ Content ([lineAdd] ! j),
                                           hStyle = StyleAdded, LineNo = 2 + int j\<rparr>
                                     else zeroHalf)\<rparr>)"
    using buildSideBySideLines_pairing
      [where s = stateSbs and s' = stateSbsBuilt and k = 0 and dl = lineCtx and i = 0
        and oldNo = 2 and newNo = 2 and rest = "[]" and removes = "[lineRem]" and adds = "[lineAdd]",
        THEN conjunct2, THEN conjunct2, THEN conjunct2]
    by (simp add: lineRem_def lineAdd_def)
  then have "length ?P = 1" "?P ! 0 = rowRemAdd"
    by (simp_all add: rowRemAdd_def lineRem_def lineAdd_def)
  then have P: "?P = [rowRemAdd]"
    by (cases ?P) auto
  have r2: "sbsRows 0 2 2 ([lineRem] @ [lineAdd] @ []) = Inr [rowRemAdd]"
    using run P by simp
  have "sbsRows 0 1 1 (lineCtx # [lineRem, lineAdd])
          = bindF (sbsRows 0 (1 + 1) (1 + 1) [lineRem, lineAdd])
              (\<lambda>rows. Inr (contextRow 0 lineCtx 1 1 # rows))"
    using buildSideBySideLines_pairing
      [where s = stateSbs and s' = stateSbsBuilt and k = 0 and dl = lineCtx and i = 0
        and oldNo = 1 and newNo = 1 and rest = "[lineRem, lineAdd]" and removes = "[]" and adds = "[]",
        THEN conjunct2, THEN conjunct2, THEN conjunct1]
    by (simp add: lineCtx_def)
  then have r1: "sbsRows 0 1 1 (lineCtx # [lineRem, lineAdd])
                   = Inr [contextRow 0 lineCtx 1 1, rowRemAdd]"
    using r2 by simp
  have b: "buildSideBySideLines stateSbs = Inr stateSbsBuilt"
    by (rule build_stateSbs)
  have h0: "Hunks stateSbs ! 0 = hunkA" "(0::nat) < length (Hunks stateSbs)"
    "FilterFile stateSbs = []"
    by (simp_all add: stateSbs_def zeroState_def)
  have hb: "OldStart hunkA = 1" "NewStart hunkA = 1" "StartLine (Hunks stateSbsBuilt ! 0) = 2"
    by (simp_all add: hunkA_def stateSbsBuilt_def)
  obtain rows st where link:
    "sbsRows (int 0) (OldStart (Hunks stateSbs ! 0)) (NewStart (Hunks stateSbs ! 0))
       (Lines (Hunks stateSbs ! 0)) = Inr rows"
    "StartLine (Hunks stateSbsBuilt ! 0) = int st"
    "sLines stateSbsBuilt ! st = hunkHeaderLine (Hunks stateSbs ! 0) (int 0)"
    "take (length rows) (drop (Suc st) (sLines stateSbsBuilt)) = rows"
    using buildSideBySideLines_pairing
      [where s = stateSbs and s' = stateSbsBuilt and k = 0 and dl = lineCtx and i = 0
        and oldNo = 1 and newNo = 1 and rest = "[]" and removes = "[]" and adds = "[]",
        THEN conjunct2, THEN conjunct1] b h0(2,3)
    by blast
  have st: "st = 2" using link(2) hb(3) by simp
  have rows: "rows = [contextRow 0 lineCtx 1 1, rowRemAdd]"
    using link(1) r1 by (simp add: h0(1) hb ls)
  have "sLines stateSbsBuilt ! 2 = hunkHeaderLine hunkA 0"
    using link(3) by (simp add: st h0(1))
  moreover have "take 2 (drop 3 (sLines stateSbsBuilt)) = [contextRow 0 lineCtx 1 1, rowRemAdd]"
    using link(4) by (simp add: st rows numeral_2_eq_2 numeral_3_eq_3)
  ultimately show ?thesis using ls r2 r1 b hb(3) by simp
qed

subsection \<open>Wrapping and \<open>BuildLines\<close>\<close>





























lemma layout_flags:
  "Wrap (resetStartLines (computeLabelGutter (updateLayout s))) = Wrap s"
  "SideBySide (resetStartLines (computeLabelGutter (updateLayout s))) = SideBySide s"
  "FullFile (resetStartLines (computeLabelGutter (updateLayout s))) = FullFile s"
  "FullFileName (resetStartLines (computeLabelGutter (updateLayout s))) = FullFileName s"
  by (simp_all add: resetStartLines_def computeLabelGutter_def updateLayout_def Let_def)

lemma layout_fields:
  "sStaged (resetStartLines (computeLabelGutter (updateLayout s))) = sStaged s"
  "Refs (resetStartLines (computeLabelGutter (updateLayout s))) = Refs s"
  "sLines (resetStartLines (computeLabelGutter (updateLayout s))) = sLines s"
  by (simp_all add: resetStartLines_def computeLabelGutter_def updateLayout_def Let_def)

lemma layout_reads:
  "readNewFile F (resetStartLines (computeLabelGutter (updateLayout s))) fn = readNewFile F s fn"
  "fullFileContent F (resetStartLines (computeLabelGutter (updateLayout s))) = fullFileContent F s"
  by (simp_all only: readNewFile_def fullFileContent_def layout_fields layout_flags)





text \<open>
  When the file of a full-file view cannot be read, \<open>buildFullFileLines\<close> returns
  before it builds anything and the display lines stay what they were.
\<close>

lemma BuildLines_stale:
  assumes "FullFile s" "FullFileName s \<noteq> []" "\<not> SideBySide s" "\<not> Wrap s"
    "fullFileContent F s = None"
  shows "\<exists>s'. BuildLines F s = Inr s' \<and> sLines s' = sLines s"
proof -
  let ?p = "resetStartLines (computeLabelGutter (updateLayout s))"
  have "buildFullFileLines F ?p = Inr ?p"
    using assms(5) by (simp add: buildFullFileLines_def layout_reads)
  moreover have "sLines ?p = sLines s"
    by (rule layout_fields)
  ultimately show ?thesis
    using assms(1-4) by (simp add: BuildLines_def Let_def layout_flags)
qed






end
